theory Spec2Isabelle
  imports Main "HOL-Library.Word"
begin

section \<open>Rows and columns of one build\<close>

text \<open>
  The updater reads the builds of a test group from the object store and merges them into
  a grid. This theory embeds the sequential code of the updater: the functions are
  translated one by one, keeping their names, the order of their cases and their checks.

  \<^item> A Go \<open>string\<close> is a byte string: \<open>string\<close> (a list of \<open>char\<close>), \<open>len\<close> is
    \<open>length\<close>, \<open>s[i:j]\<close> is \<open>take\<close> and \<open>drop\<close>.
  \<^item> \<open>int64\<close> is \<open>64 word\<close> and \<open>int32\<close> is \<open>32 word\<close>; comparisons of the code are
    the signed ones (\<open>sint\<close>), \<open>+\<close> and \<open>-\<close> wrap.
  \<^item> \<open>float64\<close> is the type variable \<open>'f\<close>: the code never computes with a metric
    value, it converts an integer (\<open>float64(x)\<close>, the parameter \<open>float64\<close> below) and
    stores it.
  \<^item> A Go map that the code only looks up or ranges over is an association list; a
    \<open>range\<close> visits it in list order, and the theorems hold for every order of the list.
\<close>

text \<open>
  \<open>state.Row_Result\<close> is the enumeration of cell results of the generated package
  \<open>testgrid/state\<close>. The members are the ones the data model lists.
\<close>

datatype Row_Result =
    Row_NO_RESULT
  | Row_PASS
  | Row_PASS_WITH_ERRORS
  | Row_PASS_WITH_SKIPS
  | Row_RUNNING
  | Row_FAIL
  | Row_FLAKY

text \<open>\<open>type Row struct\<close>: one test record of one build.\<close>

record 'f Row =
  Result :: Row_Result
  Metrics :: "(string \<times> 'f) list"
  Metadata :: "(string \<times> string) list"
  Message :: string
  Icon :: string

text \<open>
  \<open>type Column struct\<close>: one build. The field \<open>Metadata\<close> of the source is
  \<open>ColMetadata\<close> here (the name \<open>Metadata\<close> is the field of \<open>Row\<close>).
\<close>

record 'f Column =
  Id :: string
  Started :: "64 word"
  Finished :: "64 word"
  Passed :: bool
  Rows :: "(string \<times> 'f Row list) list"
  ColMetadata :: "(string \<times> string) list"

text \<open>\<open>type JunitResult struct\<close>: one \<open>testcase\<close> element; a nil pointer is \<open>None\<close>.\<close>

record 'f JunitResult =
  Name :: string
  Time :: 'f
  ClassName :: string
  Failure :: "string option"
  Output :: "string option"
  Error :: "string option"
  Skipped :: "string option"

subsection \<open>\<open>JunitResult.Message\<close>\<close>

text \<open>
  The \<open>switch\<close> of \<open>Message\<close>: the first of failure, skipped and system-out that is
  present and not empty; the empty string when there is none.
\<close>

definition Message_switch :: "'f JunitResult \<Rightarrow> string" where
  "Message_switch jr =
     (case Failure jr of
        Some (c # cs) \<Rightarrow> c # cs
      | _ \<Rightarrow>
       (case Skipped jr of
          Some (c # cs) \<Rightarrow> c # cs
        | _ \<Rightarrow>
         (case Output jr of
            Some (c # cs) \<Rightarrow> c # cs
          | _ \<Rightarrow> [])))"

text \<open>\<open>const max = 140\<close>\<close>

definition Message_max :: nat where
  "Message_max = 140"

text \<open>
  \<open>func (jr JunitResult) Message() string\<close>. In the \<open>else\<close> branch \<open>l > max\<close>, so
  \<open>l - h - 1\<close> is not negative and the slice \<open>msg[l-h-1:]\<close> is \<open>drop (l - h - 1) msg\<close>.
\<close>

definition JunitResult_Message :: "'f JunitResult \<Rightarrow> string" where
  "JunitResult_Message jr =
     (let msg = Message_switch jr; l = length msg in
      if Message_max = 0 \<or> l \<le> Message_max then msg
      else (let h = Message_max div 2 in take h msg @ ''...'' @ drop (l - h - 1) msg))"

subsection \<open>\<open>Column.Overall\<close>\<close>

text \<open>\<open>const elapsedKey = "seconds-elapsed"\<close>\<close>

definition elapsedKey :: string where
  "elapsedKey = ''seconds-elapsed''"

text \<open>
  \<open>func (br Column) Overall() Row\<close>. The clock is an argument: \<open>now\<close> is
  \<open>time.Now().Unix()\<close>, the seconds since the epoch, and
  \<open>time.Now().Add(-24*time.Hour).Unix()\<close> is \<open>now - 86400\<close>. The parameter \<open>float64\<close>
  is Go's conversion of an \<open>int64\<close>. A field the source leaves at its zero value is the
  empty string or the empty map.
\<close>

definition Overall :: "(64 word \<Rightarrow> 'f) \<Rightarrow> int \<Rightarrow> 'f Column \<Rightarrow> 'f Row" where
  "Overall float64 now br =
     (if 0 <s Finished br then
        \<lparr>Result = (if Passed br then Row_PASS else Row_FAIL),
         Metrics = [(elapsedKey, float64 (Finished br - Started br))],
         Metadata = [(''Tests name'', ''Overall'')],
         Message = '''', Icon = ''''\<rparr>
      else if sint (Started br) < now - 86400 then
        \<lparr>Result = Row_FAIL, Metrics = [],
         Metadata = [(''Tests name'', ''Overall'')],
         Message = ''Testing did not complete within 24 hours'', Icon = ''T''\<rparr>
      else
        \<lparr>Result = Row_RUNNING, Metrics = [],
         Metadata = [(''Tests name'', ''Overall'')],
         Message = ''Still running; has not finished...'', Icon = ''R''\<rparr>)"

subsection \<open>\<open>ReadBuild\<close>\<close>

text \<open>
  A value of type \<open>interface{}\<close> decoded from JSON: a string, a number, a boolean, null,
  an array or an object.
\<close>

datatype 'f any =
    AString string
  | ANumber 'f
  | ABool bool
  | ANil
  | AList "'f any list"
  | AMap "(string \<times> 'f any) list"

text \<open>
  \<open>type Started struct\<close> and \<open>type Finished struct\<close>; \<open>Metadata\<close> is
  \<open>map[string]interface{}\<close>. The fields \<open>Timestamp\<close>, \<open>Passed\<close> and \<open>Metadata\<close> of
  \<open>Finished\<close> carry the prefix \<open>Fin\<close> here.
\<close>

record Started =
  Timestamp :: "64 word"
  RepoVersion :: string
  Node :: string
  Pull :: string
  Repos :: "(string \<times> string) list"

record 'f Finished =
  FinTimestamp :: "64 word"
  FinPassed :: bool
  JobVersion :: string
  FinMetadata :: "(string \<times> 'f any) list"
  running :: bool

text \<open>\<open>func (m Metadata) ColumnMetadata() ColumnMetadata\<close>: the entries whose value is a string.\<close>

fun ColumnMetadata :: "(string \<times> 'f any) list \<Rightarrow> (string \<times> string) list" where
  "ColumnMetadata [] = []"
| "ColumnMetadata ((k, AString s) # m) = (k, s) # ColumnMetadata m"
| "ColumnMetadata (_ # m) = ColumnMetadata m"

text \<open>
  \<open>path.Base\<close> of the Go library: the last element of a path, after the trailing slashes
  are removed; \<open>.\<close> for the empty path and \<open>/\<close> for a path of slashes only.
\<close>

definition path_Base :: "string \<Rightarrow> string" where
  "path_Base path =
     (if path = [] then ''.''
      else
        (let p = rev (dropWhile (\<lambda>c. c = CHR ''/'') (rev path));
             e = rev (takeWhile (\<lambda>c. c \<noteq> CHR ''/'') (rev p))
         in if e = [] then ''/'' else e))"

text \<open>
  \<open>ReadBuild\<close> starts goroutines that download \<open>started.json\<close>, \<open>finished.json\<close> and the
  artifacts, and then waits for them. The embedding is the code of the waiting goroutine;
  what it receives is its input:

  \<^item> \<open>msgs\<close>, the values the first \<open>select\<close> loop receives, in order: an error or \<open>nil\<close>
    from the channel \<open>ec\<close>, the decoded \<open>started.json\<close> from \<open>sc\<close>, the decoded
    \<open>finished.json\<close> (or the running sentinel) from \<open>fc\<close>;
  \<open>None\<close> is the loop that never receives what it waits for;
  \<^item> \<open>sync\<close>, what the second \<open>select\<close> receives: the end of the context or a value
    from \<open>ec\<close>;
  \<^item> \<open>rows\<close>, the map the goroutine that collects the parsed artifacts has filled.
\<close>

datatype 'f recv =
    RecvErr "string option"
  | RecvStarted Started
  | RecvFinished "'f Finished"

datatype sel = CtxDone | EcRecv "string option"

datatype error = ReadFailed string | Interrupted

fun ReadBuild_wait ::
  "'f recv list \<Rightarrow> Started option \<Rightarrow> 'f Finished option \<Rightarrow>
   (string + Started \<times> 'f Finished) option" where
  "ReadBuild_wait [] started finished = None"
| "ReadBuild_wait (RecvErr (Some err) # ms) started finished = Some (Inl err)"
| "ReadBuild_wait (m # ms) started finished =
     (let started' = (case m of RecvStarted s \<Rightarrow> Some s | _ \<Rightarrow> started);
          finished' = (case m of RecvFinished f \<Rightarrow> Some f | _ \<Rightarrow> finished)
      in case (started', finished') of
           (Some s, Some f) \<Rightarrow> Some (Inr (s, f))
         | _ \<Rightarrow> ReadBuild_wait ms started' finished')"

text \<open>\<open>br.Rows[t] = append(br.Rows[t], rs...)\<close>\<close>

fun Rows_append ::
  "(string \<times> 'f Row list) list \<Rightarrow> string \<Rightarrow> 'f Row list \<Rightarrow> (string \<times> 'f Row list) list" where
  "Rows_append [] t rs = [(t, rs)]"
| "Rows_append ((k, v) # m) t rs =
     (if k = t then (k, v @ rs) # m else (k, v) # Rows_append m t rs)"

text \<open>
  The loops that look for a failing test: the inner one over the records of a row, the
  outer one over \<open>br.Rows\<close>, which skips \<open>Overall\<close>. The result is the flag \<open>ft\<close>.
\<close>

fun failing_record :: "'f Row list \<Rightarrow> bool" where
  "failing_record [] = False"
| "failing_record (r # rs) = (if Result r = Row_FAIL then True else failing_record rs)"

fun failing_test :: "(string \<times> 'f Row list) list \<Rightarrow> bool" where
  "failing_test [] = False"
| "failing_test ((n, rs) # m) =
     (if n = ''Overall'' then failing_test m
      else if failing_record rs then True
      else failing_test m)"

text \<open>
  The two assignments to \<open>br.Rows["Overall"][0]\<close>. The index panics when the key is
  missing or its slice is empty: \<open>None\<close>.
\<close>

fun amend_Overall :: "(string \<times> 'f Row list) list \<Rightarrow> (string \<times> 'f Row list) list option" where
  "amend_Overall [] = None"
| "amend_Overall ((k, v) # m) =
     (if k = ''Overall'' then
        (case v of
           [] \<Rightarrow> None
         | r # rs \<Rightarrow>
             Some ((k, r\<lparr>Icon := ''F'', Message := ''Build failed outside of test results''\<rparr> # rs) # m))
      else map_option ((#) (k, v)) (amend_Overall m))"

text \<open>
  \<open>func ReadBuild(build Build) (*Column, error)\<close>, from the first \<open>select\<close> loop on.
  \<open>prefix\<close> is \<open>build.Prefix\<close>.
\<close>

definition ReadBuild ::
  "(64 word \<Rightarrow> 'f) \<Rightarrow> int \<Rightarrow> string \<Rightarrow> 'f recv list \<Rightarrow> sel \<Rightarrow>
   (string \<times> 'f Row list) list \<Rightarrow> (error + 'f Column) option" where
  "ReadBuild float64 now prefix msgs sync rows =
     (case ReadBuild_wait msgs None None of
        None \<Rightarrow> None
      | Some (Inl err) \<Rightarrow> Some (Inl (ReadFailed err))
      | Some (Inr (started, finished)) \<Rightarrow>
          (let br = \<lparr>Id = path_Base prefix, Started = Timestamp started, Finished = 0,
                     Passed = False, Rows = [], ColMetadata = []\<rparr>
           in if running finished
              then Some (Inr (br\<lparr>Rows := [(''Overall'', [Overall float64 now br])]\<rparr>))
              else
                (let br1 = br\<lparr>Finished := FinTimestamp finished,
                              ColMetadata := ColumnMetadata (FinMetadata finished),
                              Passed := FinPassed finished\<rparr>;
                     overall = Overall float64 now br1;
                     br2 = br1\<lparr>Rows := [(''Overall'', [overall])]\<rparr>
                 in case sync of
                      CtxDone \<Rightarrow> Some (Inl Interrupted)
                    | EcRecv (Some err) \<Rightarrow> Some (Inl (ReadFailed err))
                    | EcRecv None \<Rightarrow>
                        (let br3 = br2\<lparr>Rows :=
                                     fold (\<lambda>(t, rs) m. Rows_append m t rs) rows (Rows br2)\<rparr>
                         in if Result overall = Row_FAIL \<and> \<not> failing_test (Rows br3)
                            then map_option (\<lambda>m. Inr (br3\<lparr>Rows := m\<rparr>))
                                   (amend_Overall (Rows br3))
                            else Some (Inr br3)))))"

section \<open>The grid\<close>

text \<open>
  Modelled from the spec: the messages \<open>state.Metric\<close>, \<open>state.Row\<close>, \<open>state.Column\<close> and
  \<open>state.Grid\<close> are declared in the generated package \<open>testgrid/state\<close>, which is not
  part of the source. Their fields are the ones the data model of the grid lists and the
  code assigns; \<open>Results\<close> and \<open>Indices\<close> are run-length encoded lists of \<open>int32\<close>. The
  fields \<open>Name\<close>, \<open>Id\<close>, \<open>Metrics\<close>, \<open>Started\<close> and \<open>Rows\<close> carry a prefix here, since the
  records above have fields of these names.
\<close>

record 'f Metric =
  MetricName :: string
  Indices :: "32 word list"
  Values :: "'f list"

record 'f state_Row =
  RowName :: string
  RowId :: string
  Results :: "32 word list"
  CellIds :: "string list"
  Messages :: "string list"
  Icons :: "string list"
  RowMetrics :: "'f Metric list"

record 'f state_Column =
  Build :: string
  ColStarted :: 'f
  Extra :: "string list"

record 'f Grid =
  Columns :: "'f state_Column list"
  GridRows :: "'f state_Row list"

subsection \<open>\<open>AppendResult\<close>\<close>

text \<open>\<open>var noResult = Row{Result: state.Row_NO_RESULT}\<close>\<close>

definition noResult :: "'f Row" where
  "noResult =
     \<lparr>Result = Row_NO_RESULT, Metrics = [], Metadata = [], Message = '''', Icon = ''''\<rparr>"

text \<open>
  \<open>func AppendResult(row *state.Row, rowResult Row, count int)\<close>. The function returns
  the updated row. The parameter \<open>int32\<close> is the conversion \<open>int32(rowResult.Result)\<close>:
  the numbers of the members of \<open>state.Row_Result\<close> are declared in the generated
  package. \<open>count\<close> is a Go \<open>int\<close>; \<open>int32(count)\<close> is \<open>word_of_int count\<close>, and a loop
  \<open>for i := 0; i < count; i++\<close> that appends one value runs \<open>nat count\<close> times.

  With \<open>n = 1\<close> the case expression \<open>row.Results[n-2]\<close> reads index \<open>-1\<close>: the code
  panics, the result is \<open>None\<close>.
\<close>

definition AppendResult ::
  "(Row_Result \<Rightarrow> 32 word) \<Rightarrow> 'f state_Row \<Rightarrow> 'f Row \<Rightarrow> int \<Rightarrow> 'f state_Row option" where
  "AppendResult int32 row rowResult count =
     (let latest = int32 (Result rowResult);
          n = length (Results row)
      in if n = 1 then None
         else
           (let row1 =
                  (if n = 0 \<or> Results row ! (n - 2) \<noteq> latest
                   then row\<lparr>Results := Results row @ [latest, word_of_int count]\<rparr>
                   else row\<lparr>Results :=
                          (Results row)[n - 1 := Results row ! (n - 1) + word_of_int count]\<rparr>);
                row2 = row1\<lparr>CellIds := CellIds row1 @ replicate (nat count) ''''\<rparr>
            in Some
                 (if Result rowResult \<noteq> Row_NO_RESULT
                  then row2\<lparr>Messages := Messages row2 @ replicate (nat count) (Message rowResult),
                            Icons := Icons row2 @ replicate (nat count) (Icon rowResult)\<rparr>
                  else row2)))"

text \<open>
  The words of the claims about a row: \<open>odds xs\<close> is the slice \<open>xs[1::2]\<close>,
  \<open>counts_sum\<close> is \<open>sum(results[1::2])\<close> over the signed values, and \<open>cells P rs\<close> is
  the number of cells of the run-length encoded list \<open>rs\<close> whose result satisfies \<open>P\<close>.
\<close>

fun odds :: "'a list \<Rightarrow> 'a list" where
  "odds (x # y # zs) = y # odds zs"
| "odds _ = []"

definition counts_sum :: "32 word list \<Rightarrow> int" where
  "counts_sum rs = sum_list (map sint (odds rs))"

fun cells :: "(32 word \<Rightarrow> bool) \<Rightarrow> 32 word list \<Rightarrow> int" where
  "cells P (v # c # rs) = (if P v then sint c else 0) + cells P rs"
| "cells P _ = 0"

text \<open>
  A well-formed run-length encoded list: pairs of a result and a count, no count negative.
  A new row has the empty list, and \<open>AppendResult\<close> is the only function that changes the
  list.
\<close>

definition rle_ok :: "32 word list \<Rightarrow> bool" where
  "rle_ok rs \<longleftrightarrow> even (length rs) \<and> list_all (\<lambda>c. 0 \<le> sint c) (odds rs)"

text \<open>
  A numbering of the members of \<open>state.Row_Result\<close>, for the examples. The theorems hold
  for every numbering \<open>int32\<close>.
\<close>

definition Row_Result_number :: "Row_Result \<Rightarrow> 32 word" where
  "Row_Result_number r =
     (case r of
        Row_NO_RESULT \<Rightarrow> 0
      | Row_PASS \<Rightarrow> 1
      | Row_PASS_WITH_ERRORS \<Rightarrow> 2
      | Row_PASS_WITH_SKIPS \<Rightarrow> 3
      | Row_RUNNING \<Rightarrow> 4
      | Row_FAIL \<Rightarrow> 12
      | Row_FLAKY \<Rightarrow> 13)"

subsection \<open>The column record of \<open>AppendColumn\<close>\<close>

text \<open>
  \<open>strings.SplitN(s, sep, 2)\<close> for a separator of one byte: the string is cut at the first
  separator, and is the only part when it has none.
\<close>

definition SplitN_2 :: "string \<Rightarrow> char \<Rightarrow> string list" where
  "SplitN_2 s sep =
     (if sep \<in> set s
      then [takeWhile (\<lambda>c. c \<noteq> sep) s, tl (dropWhile (\<lambda>c. c \<noteq> sep) s)]
      else [s])"

text \<open>
  The body of the loop \<open>for _, h := range headers\<close> of \<open>AppendColumn\<close>: the value appended
  to \<open>c.Extra\<close> for the header \<open>h\<close>. A lookup in a Go map is \<open>map_of\<close>; \<open>v\<close> stays the empty
  string when both keys are missing.
\<close>

definition header_value :: "'f Column \<Rightarrow> string \<Rightarrow> string" where
  "header_value build h0 =
     (if Finished build = 0 then ''''
      else
        (let (h, trunc, ah) =
               (if h0 = ''Commit'' then (''repo-commit'', 9::nat, ''job-version'')
                else (h0, 0, ''''));
             v = (case map_of (ColMetadata build) h of
                    Some v \<Rightarrow> v
                  | None \<Rightarrow>
                      if ah = '''' then ''missing''
                      else (case map_of (ColMetadata build) ah of
                              Some av \<Rightarrow> last (SplitN_2 av CHR ''+'')
                            | None \<Rightarrow> ''''))
         in if 0 < trunc \<and> trunc < length v then take trunc v else v))"

text \<open>
  The words of the claim about the header \<open>Commit\<close>: the part of a string after its last
  \<open>+\<close>, and the part after its first \<open>+\<close> (the whole string when it has no \<open>+\<close>).
\<close>

definition after_last_plus :: "string \<Rightarrow> string" where
  "after_last_plus s = rev (takeWhile (\<lambda>c. c \<noteq> CHR ''+'') (rev s))"

definition after_first_plus :: "string \<Rightarrow> string" where
  "after_first_plus s =
     (if CHR ''+'' \<in> set s then tl (dropWhile (\<lambda>c. c \<noteq> CHR ''+'') s) else s)"

subsection \<open>Names of rows\<close>

text \<open>\<open>type NameConfig struct\<close>\<close>

record NameConfig =
  format :: string
  parts :: "string list"

text \<open>
  \<open>func (r Row) Format(config NameConfig, meta map[string]string) string\<close>. The last
  line is a call of \<open>fmt.Sprintf\<close> of the Go library with a format that the configuration
  gives; the library function is the parameter \<open>Sprintf\<close>.
\<close>

definition Row_Format ::
  "(string \<Rightarrow> string list \<Rightarrow> string) \<Rightarrow> 'f Row \<Rightarrow> NameConfig \<Rightarrow> (string \<times> string) list \<Rightarrow> string"
  where
  "Row_Format Sprintf r config meta =
     Sprintf (format config)
       (map (\<lambda>p. case map_of (Metadata r) p of
                   Some v \<Rightarrow> v
                 | None \<Rightarrow> (case map_of meta p of Some v \<Rightarrow> v | None \<Rightarrow> ''''))
          (parts config))"

text \<open>
  An instance of \<open>Sprintf\<close> for the examples: every verb \<open>%s\<close> of the format is replaced
  by the next argument. The default configuration of \<open>MakeNameConfig\<close> is the format
  \<open>%s\<close> over the part \<open>Tests name\<close>.
\<close>

fun Sprintf_s :: "string \<Rightarrow> string list \<Rightarrow> string" where
  "Sprintf_s [] args = []"
| "Sprintf_s (c # f) [] = c # f"
| "Sprintf_s (c # f) (a # args) =
     (if c = CHR ''%'' \<and> take 1 f = ''s'' then a @ Sprintf_s (tl f) args
      else c # Sprintf_s f (a # args))"

definition default_NameConfig :: NameConfig where
  "default_NameConfig = \<lparr>format = ''%s'', parts = [''Tests name'']\<rparr>"

text \<open>
  \<open>fmt.Sprintf("%s [%d]", prefix, idx)\<close>: the prefix, a space, and the decimal digits of
  \<open>idx\<close> in brackets. \<open>idx\<close> counts up from 1.
\<close>

definition digit_char :: "nat \<Rightarrow> char" where
  "digit_char d = ''0123456789'' ! d"

fun decimal :: "nat \<Rightarrow> string" where
  "decimal n =
     (if n < 10 then [digit_char n] else decimal (n div 10) @ [digit_char (n mod 10)])"

declare decimal.simps [simp del]

definition Sprintf_s_d :: "string \<Rightarrow> nat \<Rightarrow> string" where
  "Sprintf_s_d prefix idx = prefix @ '' ['' @ decimal idx @ '']''"

text \<open>
  The suffixed names of one prefix are different from each other, so only finitely many
  of them are in \<open>found\<close>: the loop that looks for a free name ends.
\<close>

lemma digit_char_inj: "a < 10 \<Longrightarrow> b < 10 \<Longrightarrow> digit_char a = digit_char b \<Longrightarrow> a = b"
proof -
  assume a: "a < 10" and b: "b < 10" and e: "digit_char a = digit_char b"
  have d: "distinct ''0123456789''" by simp
  have l: "length ''0123456789'' = 10" by simp
  from nth_eq_iff_index_eq [OF d, of a b] a b e l show "a = b"
    unfolding digit_char_def by simp
qed

lemma decimal_nonempty: "decimal n \<noteq> []"
  by (subst decimal.simps) simp

lemma decimal_inj: "decimal a = decimal b \<Longrightarrow> a = b"
proof (induction a arbitrary: b rule: decimal.induct)
  case (1 n)
  show ?case
  proof (cases "n < 10")
    case True
    then have n: "decimal n = [digit_char n]" by (subst decimal.simps) simp
    show ?thesis
    proof (cases "b < 10")
      case b: True
      then have "decimal b = [digit_char b]" by (subst decimal.simps) simp
      with n "1.prems" True b show ?thesis by (auto dest: digit_char_inj)
    next
      case b: False
      then have "decimal b = decimal (b div 10) @ [digit_char (b mod 10)]"
        by (subst decimal.simps) simp
      with n "1.prems" decimal_nonempty [of "b div 10"] show ?thesis by auto
    qed
  next
    case False
    then have n: "decimal n = decimal (n div 10) @ [digit_char (n mod 10)]"
      by (subst decimal.simps) simp
    show ?thesis
    proof (cases "b < 10")
      case b: True
      then have "decimal b = [digit_char b]" by (subst decimal.simps) simp
      with n "1.prems" decimal_nonempty [of "n div 10"] show ?thesis by auto
    next
      case b: False
      then have "decimal b = decimal (b div 10) @ [digit_char (b mod 10)]"
        by (subst decimal.simps) simp
      with n "1.prems" have e1: "decimal (n div 10) = decimal (b div 10)"
        and e2: "digit_char (n mod 10) = digit_char (b mod 10)" by auto
      from "1.IH" [OF False e1] have "n div 10 = b div 10" .
      moreover from e2 have "n mod 10 = b mod 10" by (intro digit_char_inj) simp_all
      ultimately show ?thesis by (metis div_mult_mod_eq)
    qed
  qed
qed

lemma Sprintf_s_d_inj: "Sprintf_s_d prefix a = Sprintf_s_d prefix b \<Longrightarrow> a = b"
  by (auto simp: Sprintf_s_d_def dest: decimal_inj)

lemma finite_suffixed: "finite {k. Sprintf_s_d prefix k \<in> set found}"
proof -
  have "inj (Sprintf_s_d prefix)" by (rule injI) (rule Sprintf_s_d_inj)
  then have "finite (Sprintf_s_d prefix -` set found)" by (intro finite_vimageI) auto
  then show ?thesis by (simp add: vimage_def)
qed

text \<open>
  The loop \<open>for idx := 1; found[name]; idx++ { name = fmt.Sprintf("%s [%d]", prefix, idx) }\<close>
  of \<open>AppendColumn\<close>, with the state \<open>name\<close>, \<open>idx\<close>; the result is the \<open>name\<close> that leaves
  it. \<open>found\<close> is the list of the keys of the map \<open>found\<close> (all its values are \<open>true\<close>).
\<close>

function unique_name :: "string \<Rightarrow> string list \<Rightarrow> string \<Rightarrow> nat \<Rightarrow> string" where
  "unique_name prefix found name idx =
     (if name \<in> set found
      then unique_name prefix found (Sprintf_s_d prefix idx) (idx + 1)
      else name)"
  by pat_completeness auto
termination
proof (relation "measure (\<lambda>(prefix, found, name, idx).
    card {k. idx \<le> k \<and> Sprintf_s_d prefix k \<in> set found} +
    (if name \<in> set found then 1 else 0))", goal_cases)
  case 1
  show ?case by simp
next
  case (2 prefix found name idx)
  let ?A = "{k. idx \<le> k \<and> Sprintf_s_d prefix k \<in> set found}"
  let ?B = "{k. idx + 1 \<le> k \<and> Sprintf_s_d prefix k \<in> set found}"
  have fin: "finite ?A" by (rule finite_subset [OF _ finite_suffixed [of prefix found]]) auto
  have "card ?B + (if Sprintf_s_d prefix idx \<in> set found then 1 else 0) \<le> card ?A"
  proof (cases "Sprintf_s_d prefix idx \<in> set found")
    case True
    then have "?A = insert idx ?B" by (auto simp: le_Suc_eq Suc_le_eq dest: le_neq_implies_less)
    moreover have "idx \<notin> ?B" by simp
    moreover have "finite ?B" by (rule finite_subset [OF _ fin]) auto
    ultimately show ?thesis using True by simp
  next
    case False
    have "?B \<subseteq> ?A" by auto
    then show ?thesis using False fin by (simp add: card_mono)
  qed
  with 2 show ?case by simp
qed

declare unique_name.simps [simp del]

subsection \<open>Metrics\<close>

text \<open>
  \<open>func AppendMetric(metric *state.Metric, idx int32, value float64)\<close>. \<open>l\<close> is the
  length of \<open>Indices\<close> (the conversion \<open>int32(len(...))\<close> is the identity below \<open>2^31\<close>
  elements). With \<open>l = 1\<close> the condition reads \<open>metric.Indices[-1]\<close>: the code panics.
\<close>

definition AppendMetric :: "'f Metric \<Rightarrow> 32 word \<Rightarrow> 'f \<Rightarrow> 'f Metric option" where
  "AppendMetric metric idx val =
     (let l = length (Indices metric)
      in if l = 1 then None
         else
           (let metric1 =
                  (if l = 0 \<or> Indices metric ! (l - 2) + Indices metric ! (l - 1) \<noteq> idx
                   then metric\<lparr>Indices := Indices metric @ [idx, 1]\<rparr>
                   else metric\<lparr>Indices :=
                          (Indices metric)[l - 1 := Indices metric ! (l - 1) + 1]\<rparr>)
            in Some (metric1\<lparr>Values := Values metric1 @ [val]\<rparr>)))"

text \<open>
  \<open>func FindMetric(row *state.Row, name string) *state.Metric\<close>: the pointer is the
  position of the metric in \<open>row.Metrics\<close>, \<open>nil\<close> is \<open>None\<close>.
\<close>

fun FindMetric_loop :: "'f Metric list \<Rightarrow> string \<Rightarrow> nat option" where
  "FindMetric_loop [] name = None"
| "FindMetric_loop (m # ms) name =
     (if MetricName m = name then Some 0 else map_option Suc (FindMetric_loop ms name))"

definition FindMetric :: "'f state_Row \<Rightarrow> string \<Rightarrow> nat option" where
  "FindMetric row name = FindMetric_loop (RowMetrics row) name"

subsection \<open>\<open>AppendColumn\<close>\<close>

text \<open>
  A \<open>for ... range\<close> loop whose body may panic: the body \<open>f\<close> is run on each element in
  turn, and the first \<open>None\<close> ends the loop.
\<close>

fun fold_option :: "('a \<Rightarrow> 's \<Rightarrow> 's option) \<Rightarrow> 'a list \<Rightarrow> 's \<Rightarrow> 's option" where
  "fold_option f [] s = Some s"
| "fold_option f (x # xs) s = (case f x s of None \<Rightarrow> None | Some s' \<Rightarrow> fold_option f xs s')"

text \<open>
  \<open>grid.Rows\<close> is a slice of pointers to rows, and the map \<open>rows\<close> of \<open>AppendColumn\<close> holds
  the same pointers under the names of the rows. A pointer is the position of the row in
  \<open>grid.Rows\<close>: every row the code creates is appended to \<open>grid.Rows\<close> at once, and no row
  is removed. \<open>update_row p f\<close> is a call \<open>f(r)\<close> on the pointer \<open>r = p\<close>; a pointer to a
  row that is not in the grid has no meaning here (\<open>None\<close>).
\<close>

definition update_row ::
  "nat \<Rightarrow> ('f state_Row \<Rightarrow> 'f state_Row option) \<Rightarrow> 'f Grid \<Rightarrow> 'f Grid option" where
  "update_row p f grid =
     (if p < length (GridRows grid)
      then map_option (\<lambda>r. grid\<lparr>GridRows := (GridRows grid)[p := r]\<rparr>) (f (GridRows grid ! p))
      else None)"

text \<open>
  The body of the loop \<open>for k, v := range br.Metrics\<close> of \<open>AppendColumn\<close> on the row \<open>r\<close>.
\<close>

definition AppendColumn_metric :: "string \<times> 'f \<Rightarrow> 'f state_Row \<Rightarrow> 'f state_Row option" where
  "AppendColumn_metric kv r =
     (case kv of (k, v) \<Rightarrow>
        (let (r1, m) =
               (case FindMetric r k of
                  Some m \<Rightarrow> (r, m)
                | None \<Rightarrow>
                    (r\<lparr>RowMetrics :=
                         RowMetrics r @ [\<lparr>MetricName = k, Indices = [], Values = []\<rparr>]\<rparr>,
                     length (RowMetrics r)))
         in map_option (\<lambda>metric. r1\<lparr>RowMetrics := (RowMetrics r1)[m := metric]\<rparr>)
              (AppendMetric (RowMetrics r1 ! m) (word_of_nat (length (Messages r1))) v)))"

text \<open>
  The state of the loops of \<open>AppendColumn\<close>: the grid, the map \<open>rows\<close>, the map \<open>missing\<close>
  and the keys of the map \<open>found\<close>. The maps from names to pointers are association
  lists; \<open>rows[name] = r\<close> for a name that is not a key appends the pair, and
  \<open>delete(missing, name)\<close> removes the pairs of the name.

  The body of the loop \<open>for _, br := range results\<close>, for the row records of the key
  \<open>target\<close> of \<open>build.Rows\<close>:
\<close>

definition AppendColumn_record ::
  "(Row_Result \<Rightarrow> 32 word) \<Rightarrow> (string \<Rightarrow> string list \<Rightarrow> string) \<Rightarrow> NameConfig \<Rightarrow> 'f Column \<Rightarrow>
   string \<Rightarrow> 'f Row \<Rightarrow>
   'f Grid \<times> (string \<times> nat) list \<times> (string \<times> nat) list \<times> string list \<Rightarrow>
   ('f Grid \<times> (string \<times> nat) list \<times> (string \<times> nat) list \<times> string list) option" where
  "AppendColumn_record int32 Sprintf config build target br st =
     (case st of (grid, rows, missing, found) \<Rightarrow>
        (let prefix = Row_Format Sprintf br config (ColMetadata build);
             name = unique_name prefix found prefix 1;
             found1 = name # found;
             missing1 = filter (\<lambda>(k, p). k \<noteq> name) missing
         in case
              (case map_of rows name of
                 Some r \<Rightarrow> Some (grid, rows, r)
               | None \<Rightarrow>
                   (let r = length (GridRows grid);
                        rows1 = rows @ [(name, r)];
                        grid1 = grid\<lparr>GridRows := GridRows grid @
                                  [\<lparr>RowName = name, RowId = target, Results = [],
                                    CellIds = [], Messages = [], Icons = [],
                                    RowMetrics = []\<rparr>]\<rparr>;
                        n = length (Columns grid1)
                    in map_option (\<lambda>g. (g, rows1, r))
                         (if n > 1
                          then update_row r
                                 (\<lambda>row. AppendResult int32 row noResult (int n - 1)) grid1
                          else Some grid1)))
            of
              None \<Rightarrow> None
            | Some (grid2, rows2, r) \<Rightarrow>
                map_option (\<lambda>g. (g, rows2, missing1, found1))
                  (update_row r
                     (\<lambda>row. case AppendResult int32 row br 1 of
                               None \<Rightarrow> None
                             | Some row1 \<Rightarrow> fold_option AppendColumn_metric (Metrics br) row1)
                     grid2)))"

text \<open>
  \<open>func AppendColumn(headers []string, format NameConfig, grid *state.Grid,
  rows map[string]*state.Row, build Column)\<close>. The function returns the grid and the map
  \<open>rows\<close>, which it updates in place. \<open>float64\<close>, \<open>int32\<close> and \<open>Sprintf\<close> are the conversions
  and the library function described above.
\<close>

definition AppendColumn ::
  "(64 word \<Rightarrow> 'f) \<Rightarrow> (Row_Result \<Rightarrow> 32 word) \<Rightarrow> (string \<Rightarrow> string list \<Rightarrow> string) \<Rightarrow>
   string list \<Rightarrow> NameConfig \<Rightarrow> 'f Grid \<times> (string \<times> nat) list \<Rightarrow> 'f Column \<Rightarrow>
   ('f Grid \<times> (string \<times> nat) list) option" where
  "AppendColumn float64 int32 Sprintf headers config st build =
     (case st of (grid, rows) \<Rightarrow>
        (let c = \<lparr>Build = Id build, ColStarted = float64 (Started build * 1000),
                  Extra = map (header_value build) headers\<rparr>;
             grid1 = grid\<lparr>Columns := Columns grid @ [c]\<rparr>
         in case fold_option
                   (\<lambda>(target, results).
                      fold_option (AppendColumn_record int32 Sprintf config build target) results)
                   (Rows build) (grid1, rows, rows, [])
            of
              None \<Rightarrow> None
            | Some (grid2, rows2, missing, found) \<Rightarrow>
                map_option (\<lambda>g. (g, rows2))
                  (fold_option
                     (\<lambda>(name, row). update_row row (\<lambda>r. AppendResult int32 r noResult 1))
                     missing grid2)))"

text \<open>The grid and the map \<open>rows\<close> that \<open>ReadBuilds\<close> starts with.\<close>

definition empty_Grid :: "'f Grid" where
  "empty_Grid = \<lparr>Columns = [], GridRows = []\<rparr>"

text \<open>\<open>AppendColumn\<close> called for each column of a list in turn.\<close>

definition AppendColumns ::
  "(64 word \<Rightarrow> 'f) \<Rightarrow> (Row_Result \<Rightarrow> 32 word) \<Rightarrow> (string \<Rightarrow> string list \<Rightarrow> string) \<Rightarrow>
   string list \<Rightarrow> NameConfig \<Rightarrow> 'f Column list \<Rightarrow> 'f Grid \<times> (string \<times> nat) list \<Rightarrow>
   ('f Grid \<times> (string \<times> nat) list) option" where
  "AppendColumns float64 int32 Sprintf headers config cols st =
     fold_option (\<lambda>c s. AppendColumn float64 int32 Sprintf headers config s c) cols st"

subsection \<open>The columns that \<open>ReadBuilds\<close> appends\<close>

text \<open>
  \<open>stop.Unix()\<close> in \<open>ReadBuilds\<close>: \<open>stop\<close> is \<open>time.Now().Add(-dur)\<close> when the window \<open>dur\<close>
  is not zero, and the zero time otherwise. \<open>now\<close> is the clock in nanoseconds since the
  epoch and \<open>dur\<close> the window in nanoseconds; the seconds of the zero time are
  \<open>-62135596800\<close>.
\<close>

definition stop_Unix :: "int \<Rightarrow> int \<Rightarrow> 64 word" where
  "stop_Unix now dur =
     (if dur \<noteq> 0 then word_of_int ((now - dur) div 1000000000)
      else word_of_int (- 62135596800))"

text \<open>
  The loop \<open>for _, c := range cols\<close> of \<open>ReadBuilds\<close>, which runs when all readers have
  returned: \<open>cols\<close> are the slots of the columns, \<open>nil\<close> is \<open>None\<close>. \<open>cancelled i\<close> tells
  whether the \<open>select\<close> of the iteration on slot \<open>i\<close> finds the context done; the loop
  then returns the error \<open>Interrupted\<close>. \<open>stop\<close> is \<open>stop.Unix()\<close>.
\<close>

fun ReadBuilds_append ::
  "(64 word \<Rightarrow> 'f) \<Rightarrow> (Row_Result \<Rightarrow> 32 word) \<Rightarrow> (string \<Rightarrow> string list \<Rightarrow> string) \<Rightarrow>
   string list \<Rightarrow> NameConfig \<Rightarrow> (nat \<Rightarrow> bool) \<Rightarrow> 64 word \<Rightarrow> nat \<Rightarrow> 'f Column option list \<Rightarrow>
   'f Grid \<times> (string \<times> nat) list \<Rightarrow> (error + 'f Grid \<times> (string \<times> nat) list) option" where
  "ReadBuilds_append float64 int32 Sprintf h nc cancelled stop i [] st = Some (Inr st)"
| "ReadBuilds_append float64 int32 Sprintf h nc cancelled stop i (c # cols) st =
     (if cancelled i then Some (Inl Interrupted)
      else
        (case c of
           None \<Rightarrow> ReadBuilds_append float64 int32 Sprintf h nc cancelled stop (i + 1) cols st
         | Some col \<Rightarrow>
             (case AppendColumn float64 int32 Sprintf h nc st col of
                None \<Rightarrow> None
              | Some st1 \<Rightarrow>
                  if Started col <s stop then Some (Inr st1)
                  else ReadBuilds_append float64 int32 Sprintf h nc cancelled stop (i + 1)
                         cols st1)))"

text \<open>
  The words of the claim about this loop: the columns of the slots that are not empty, in
  slot order, up to the first one that started before \<open>stop\<close>, that one included.
\<close>

definition columns_fed :: "64 word \<Rightarrow> 'f Column option list \<Rightarrow> 'f Column list" where
  "columns_fed stop cols =
     (let cs = List.map_filter (\<lambda>c. c) cols
      in takeWhile (\<lambda>c. \<not> Started c <s stop) cs @
         take 1 (dropWhile (\<lambda>c. \<not> Started c <s stop) cs))"

text \<open>
  A build for the examples: finished after ten minutes, passed, without test results;
  its column has the overall row only.
\<close>

definition example_build :: "string \<Rightarrow> 64 word \<Rightarrow> int Column" where
  "example_build name started =
     \<lparr>Id = name, Started = started, Finished = started + 600, Passed = True,
      Rows = [(''Overall'',
               [\<lparr>Result = Row_PASS, Metrics = [(''seconds-elapsed'', 600)],
                 Metadata = [(''Tests name'', ''Overall'')], Message = '''', Icon = ''''\<rparr>])],
      ColMetadata = []\<rparr>"

subsection \<open>Invariants of the grid\<close>

text \<open>
  \<open>distinct_NO_RESULT int32\<close>: no other member of \<open>state.Row_Result\<close> has the number of
  \<open>NO_RESULT\<close>.
\<close>

definition distinct_NO_RESULT :: "(Row_Result \<Rightarrow> 32 word) \<Rightarrow> bool" where
  "distinct_NO_RESULT int32 \<longleftrightarrow> (\<forall>r. int32 r = int32 Row_NO_RESULT \<longrightarrow> r = Row_NO_RESULT)"

text \<open>
  The invariant of a row of a grid with \<open>n\<close> columns: the results are well formed and
  count \<open>n\<close> cells, there are \<open>n\<close> cell ids, as many icons as messages, one message for
  each cell with a result, and no metric whose \<open>Indices\<close> have one element (the length
  that makes \<open>AppendMetric\<close> panic).
\<close>

definition row_inv :: "(Row_Result \<Rightarrow> 32 word) \<Rightarrow> nat \<Rightarrow> 'f state_Row \<Rightarrow> bool" where
  "row_inv int32 n r \<longleftrightarrow>
     rle_ok (Results r) \<and>
     counts_sum (Results r) = int n \<and>
     length (CellIds r) = n \<and>
     length (Icons r) = length (Messages r) \<and>
     length (Messages r) \<le> n \<and>
     (distinct_NO_RESULT int32 \<longrightarrow>
        int (length (Messages r)) = cells (\<lambda>v. v \<noteq> int32 Row_NO_RESULT) (Results r)) \<and>
     list_all (\<lambda>m. length (Indices m) \<noteq> 1) (RowMetrics r)"

definition metrics_ok :: "'f state_Row \<Rightarrow> bool" where
  "metrics_ok r \<longleftrightarrow> list_all (\<lambda>m. length (Indices m) \<noteq> 1) (RowMetrics r)"

text \<open>
  The invariant of the grid and the map \<open>rows\<close> between two calls of \<open>AppendColumn\<close>: the
  map has one name for each row of the grid, in the order of the rows, no name twice, and
  every row has the invariant for the number of columns of the grid.
\<close>

definition grid_inv ::
  "(Row_Result \<Rightarrow> 32 word) \<Rightarrow> 'f Grid \<times> (string \<times> nat) list \<Rightarrow> bool" where
  "grid_inv int32 st \<longleftrightarrow>
     (case st of (grid, rows) \<Rightarrow>
        map snd rows = [0..<length (GridRows grid)] \<and>
        distinct (map fst rows) \<and>
        list_all (row_inv int32 (length (Columns grid))) (GridRows grid))"

text \<open>
  The invariant of the loop over the records of a build, in a grid that had \<open>n\<close> columns
  before the call and has the columns \<open>cs\<close> now: \<open>missing\<close> are the rows whose name is not
  in \<open>found\<close>; a row whose name is in \<open>found\<close> has its cell for the new column, the other
  rows have not.
\<close>

definition loop_inv ::
  "(Row_Result \<Rightarrow> 32 word) \<Rightarrow> nat \<Rightarrow> 'f state_Column list \<Rightarrow>
   'f Grid \<times> (string \<times> nat) list \<times> (string \<times> nat) list \<times> string list \<Rightarrow> bool" where
  "loop_inv int32 n cs st \<longleftrightarrow>
     (case st of (grid, rows, missing, found) \<Rightarrow>
        Columns grid = cs \<and>
        length cs = n + 1 \<and>
        map snd rows = [0..<length (GridRows grid)] \<and>
        distinct (map fst rows) \<and>
        missing = filter (\<lambda>(k, p). k \<notin> set found) rows \<and>
        list_all (\<lambda>(k, p). row_inv int32 (if k \<in> set found then n + 1 else n)
                              (GridRows grid ! p)) rows)"

section \<open>Paths of the object store\<close>

text \<open>
  \<open>gcsPath\<close> wraps a \<open>url.URL\<close> of the Go library \<open>net/url\<close>: \<open>Set\<close> calls \<open>url.Parse\<close> and
  checks the fields of the result, \<open>String\<close> calls \<open>URL.String\<close>. The two library functions
  are embedded for the raw URLs that need no escaping: the bytes \<open>plain_char\<close> below
  (letters, digits, \<open>- _ . ~\<close>, the delimiters \<open>/ : ? # @\<close> and \<open>+\<close>). On these the library
  neither decodes nor encodes a byte, and parsing is the cutting of the string that is
  written out here; for any other input the functions are \<open>None\<close> (not embedded).
\<close>

definition is_letter :: "char \<Rightarrow> bool" where
  "is_letter c \<longleftrightarrow>
     c \<in> set ''abcdefghijklmnopqrstuvwxyz'' \<or> c \<in> set ''ABCDEFGHIJKLMNOPQRSTUVWXYZ''"

definition is_digit :: "char \<Rightarrow> bool" where
  "is_digit c \<longleftrightarrow> c \<in> set ''0123456789''"

text \<open>The bytes that \<open>shouldEscape\<close> never escapes: letters, digits and \<open>- _ . ~\<close>.\<close>

definition unreserved :: "char \<Rightarrow> bool" where
  "unreserved c \<longleftrightarrow> is_letter c \<or> is_digit c \<or> c \<in> set ''-_.~''"

definition plain_char :: "char \<Rightarrow> bool" where
  "plain_char c \<longleftrightarrow> unreserved c \<or> c \<in> set ''/:?#@+''"

text \<open>\<open>strings.ToLower\<close> on one byte.\<close>

definition ToLower_char :: "char \<Rightarrow> char" where
  "ToLower_char c =
     (case map_of (zip ''ABCDEFGHIJKLMNOPQRSTUVWXYZ'' ''abcdefghijklmnopqrstuvwxyz'') c of
        Some l \<Rightarrow> l
      | None \<Rightarrow> c)"

text \<open>\<open>type Userinfo struct\<close> and \<open>type URL struct\<close> of \<open>net/url\<close>.\<close>

record Userinfo =
  username :: string
  password :: string
  passwordSet :: bool

record URL =
  Scheme :: string
  Opaque :: string
  User :: "Userinfo option"
  Host :: string
  Path :: string
  RawPath :: string
  ForceQuery :: bool
  RawQuery :: string
  Fragment :: string

text \<open>The zero value of \<open>URL\<close>.\<close>

definition zero_URL :: URL where
  "zero_URL =
     \<lparr>Scheme = '''', Opaque = '''', User = None, Host = '''', Path = '''', RawPath = '''',
      ForceQuery = False, RawQuery = '''', Fragment = ''''\<rparr>"

text \<open>
  \<open>func getscheme(rawurl string) (scheme, path string, err error)\<close>: the loop over the
  bytes of \<open>rawurl\<close>, with the bytes before the index \<open>i\<close> in \<open>pre\<close> and the bytes from \<open>i\<close>
  on as the list; \<open>None\<close> is the error \<open>missing protocol scheme\<close>.
\<close>

fun getscheme_loop :: "string \<Rightarrow> string \<Rightarrow> string \<Rightarrow> (string \<times> string) option" where
  "getscheme_loop rawurl pre [] = Some ('''', rawurl)"
| "getscheme_loop rawurl pre (c # cs) =
     (if is_letter c then getscheme_loop rawurl (pre @ [c]) cs
      else if is_digit c \<or> c = CHR ''+'' \<or> c = CHR ''-'' \<or> c = CHR ''.'' then
        (if pre = [] then Some ('''', rawurl) else getscheme_loop rawurl (pre @ [c]) cs)
      else if c = CHR '':'' then
        (if pre = [] then None else Some (pre, cs))
      else Some ('''', rawurl))"

definition getscheme :: "string \<Rightarrow> (string \<times> string) option" where
  "getscheme rawurl = getscheme_loop rawurl [] rawurl"

text \<open>
  \<open>func split(s string, c string, cutc bool) (string, string)\<close> for a separator of one
  byte: \<open>s\<close> is cut at the first \<open>c\<close>, which is dropped when \<open>cutc\<close> is set.
\<close>

definition url_split :: "string \<Rightarrow> char \<Rightarrow> bool \<Rightarrow> string \<times> string" where
  "url_split s c cutc =
     (if c \<in> set s
      then (takeWhile (\<lambda>x. x \<noteq> c) s,
            if cutc then tl (dropWhile (\<lambda>x. x \<noteq> c) s) else dropWhile (\<lambda>x. x \<noteq> c) s)
      else (s, ''''))"

text \<open>
  \<open>func parseAuthority(authority string) (user *Userinfo, host string, err error)\<close> on
  plain bytes: \<open>parseHost\<close> returns the host as it is (it has no \<open>[\<close> and no escape),
  \<open>validUserinfo\<close> holds, and nothing is unescaped. The authority is cut at its last \<open>@\<close>.
  (A later version of the library also rejects a host whose port is not a number; such a
  host has a colon, and \<open>Set\<close> rejects it in either case.)
\<close>

definition parseAuthority :: "string \<Rightarrow> Userinfo option \<times> string" where
  "parseAuthority authority =
     (if CHR ''@'' \<notin> set authority then (None, authority)
      else
        (let host = rev (takeWhile (\<lambda>x. x \<noteq> CHR ''@'') (rev authority));
             userinfo = rev (tl (dropWhile (\<lambda>x. x \<noteq> CHR ''@'') (rev authority)))
         in if CHR '':'' \<notin> set userinfo
            then (Some \<lparr>username = userinfo, password = '''', passwordSet = False\<rparr>, host)
            else (Some \<lparr>username = fst (url_split userinfo CHR '':'' True),
                         password = snd (url_split userinfo CHR '':'' True),
                         passwordSet = True\<rparr>, host)))"

text \<open>
  \<open>func parse(rawurl string, viaRequest bool) (*URL, error)\<close> with \<open>viaRequest = false\<close>,
  on plain bytes (so \<open>rawurl\<close> is not \<open>*\<close>, and \<open>setPath\<close> stores the path as it is, with
  an empty \<open>RawPath\<close>). \<open>Inl\<close> is the error.
\<close>

definition url_parse :: "string \<Rightarrow> string + URL" where
  "url_parse rawurl =
     (case getscheme rawurl of
        None \<Rightarrow> Inl ''missing protocol scheme''
      | Some (scheme, rest0) \<Rightarrow>
          (let url0 = zero_URL\<lparr>Scheme := map ToLower_char scheme\<rparr>;
               (rest, url1) =
                 (if rest0 \<noteq> [] \<and> last rest0 = CHR ''?'' \<and> count_list rest0 CHR ''?'' = 1
                  then (butlast rest0, url0\<lparr>ForceQuery := True\<rparr>)
                  else (fst (url_split rest0 CHR ''?'' True),
                        url0\<lparr>RawQuery := snd (url_split rest0 CHR ''?'' True)\<rparr>))
           in if take 1 rest \<noteq> ''/'' \<and> Scheme url1 \<noteq> ''''
              then Inr (url1\<lparr>Opaque := rest\<rparr>)
              else if take 1 rest \<noteq> ''/'' \<and> CHR '':'' \<in> set rest \<and>
                      CHR ''/'' \<notin> set (takeWhile (\<lambda>x. x \<noteq> CHR '':'') rest)
              then Inl ''first path segment in URL cannot contain colon''
              else if (Scheme url1 \<noteq> '''' \<or> take 3 rest \<noteq> ''///'') \<and> take 2 rest = ''//''
              then
                (let (authority, rest2) = url_split (drop 2 rest) CHR ''/'' False;
                     (user, host) = parseAuthority authority
                 in Inr (url1\<lparr>User := user, Host := host, Path := rest2\<rparr>))
              else Inr (url1\<lparr>Path := rest\<rparr>)))"

text \<open>
  \<open>func Parse(rawurl string) (*URL, error)\<close>: the fragment is cut off at the first \<open>#\<close>,
  the rest is parsed. \<open>None\<close> for a raw URL with a byte that is not plain.
\<close>

definition url_Parse :: "string \<Rightarrow> (string + URL) option" where
  "url_Parse rawurl =
     (if list_all plain_char rawurl then
        (let (u, frag) = url_split rawurl CHR ''#'' True
         in case url_parse u of
              Inl err \<Rightarrow> Some (Inl err)
            | Inr url \<Rightarrow> Some (Inr (if frag = '''' then url else url\<lparr>Fragment := frag\<rparr>)))
      else None)"

text \<open>
  \<open>func (u *URL) String() string\<close>, for a URL without user whose host, path and fragment
  need no escaping and whose \<open>RawPath\<close> is empty; \<open>None\<close> for any other URL. \<open>buf\<close> is the
  buffer the function writes to.
\<close>

definition URL_String :: "URL \<Rightarrow> string option" where
  "URL_String u =
     (if User u = None \<and> RawPath u = '''' \<and>
         list_all (\<lambda>c. unreserved c \<or> c \<in> set '':+'') (Host u) \<and>
         list_all (\<lambda>c. unreserved c \<or> c \<in> set ''/:@+'') (Path u) \<and>
         list_all (\<lambda>c. unreserved c \<or> c \<in> set ''/:?@+'') (Fragment u)
      then
        (let buf0 = (if Scheme u \<noteq> '''' then Scheme u @ '':'' else '''');
             buf1 =
               (if Opaque u \<noteq> '''' then buf0 @ Opaque u
                else
                  (let buf2 =
                         (if Scheme u \<noteq> '''' \<or> Host u \<noteq> ''''
                          then (if Host u \<noteq> '''' \<or> Path u \<noteq> '''' then buf0 @ ''//'' else buf0)
                               @ Host u
                          else buf0);
                       path = Path u;
                       buf3 = (if path \<noteq> '''' \<and> take 1 path \<noteq> ''/'' \<and> Host u \<noteq> ''''
                               then buf2 @ ''/'' else buf2);
                       buf4 = (if buf3 = '''' \<and> CHR '':'' \<in> set path \<and>
                                  CHR ''/'' \<notin> set (takeWhile (\<lambda>x. x \<noteq> CHR '':'') path)
                               then buf3 @ ''./'' else buf3)
                   in buf4 @ path));
             buf5 = (if ForceQuery u \<or> RawQuery u \<noteq> ''''
                     then buf1 @ ''?'' @ RawQuery u else buf1)
         in Some (if Fragment u \<noteq> '''' then buf5 @ ''#'' @ Fragment u else buf5))
      else None)"

subsection \<open>\<open>gcsPath\<close>\<close>

text \<open>\<open>type gcsPath struct\<close>\<close>

record gcsPath =
  url :: URL

text \<open>The errors of \<open>Set\<close>, one for each case of its \<open>switch\<close>.\<close>

datatype path_error =
    InvalidURL string
  | NotGS
  | HasPort
  | HasOpaque
  | HasUser
  | HasQuery
  | HasFragment

text \<open>
  \<open>func (g *gcsPath) Set(v string) error\<close>: the result is the error, or the path that
  \<open>g\<close> becomes; \<open>None\<close> where \<open>url.Parse\<close> is not embedded.
\<close>

definition gcsPath_Set :: "string \<Rightarrow> (path_error + gcsPath) option" where
  "gcsPath_Set v =
     (case url_Parse v of
        None \<Rightarrow> None
      | Some (Inl err) \<Rightarrow> Some (Inl (InvalidURL err))
      | Some (Inr u) \<Rightarrow>
          Some (if Scheme u \<noteq> ''gs'' then Inl NotGS
                else if CHR '':'' \<in> set (Host u) then Inl HasPort
                else if Opaque u \<noteq> '''' then Inl HasOpaque
                else if User u \<noteq> None then Inl HasUser
                else if RawQuery u \<noteq> '''' then Inl HasQuery
                else if Fragment u \<noteq> '''' then Inl HasFragment
                else Inr \<lparr>url = u\<rparr>))"

text \<open>\<open>func (g gcsPath) String() string\<close>, \<open>bucket()\<close> and \<open>object()\<close>.\<close>

definition gcsPath_String :: "gcsPath \<Rightarrow> string option" where
  "gcsPath_String g = URL_String (url g)"

definition gcsPath_bucket :: "gcsPath \<Rightarrow> string" where
  "gcsPath_bucket g = Host (url g)"

definition gcsPath_object :: "gcsPath \<Rightarrow> string" where
  "gcsPath_object g = (if Path (url g) = '''' then Path (url g) else drop 1 (Path (url g)))"

text \<open>
  The strings \<open>gs://b p\<close> of the form that the comments of \<open>bucket()\<close> and \<open>object()\<close>
  name, \<open>gs://bucket/path/to/something\<close>: a bucket \<open>b\<close> of letters, digits and \<open>- _ . ~\<close>
  that is not empty, and a rest \<open>p\<close> that is empty or starts with \<open>/\<close>, of these bytes and
  \<open>/ : @ +\<close>.
\<close>

definition canonical_gs :: "string \<Rightarrow> string \<Rightarrow> bool" where
  "canonical_gs b p \<longleftrightarrow>
     b \<noteq> [] \<and> list_all unreserved b \<and>
     (p = [] \<or> take 1 p = ''/'') \<and>
     list_all (\<lambda>c. unreserved c \<or> c \<in> set ''/:@+'') p"

section \<open>Theorems\<close>

subsection \<open>Truncation of messages\<close>

lemma Message_short:
  "length (Message_switch jr) \<le> 140 \<Longrightarrow> JunitResult_Message jr = Message_switch jr"
  by (simp add: JunitResult_Message_def Message_max_def Let_def)

lemma Message_long:
  "140 < length (Message_switch jr) \<Longrightarrow>
   JunitResult_Message jr =
     take 70 (Message_switch jr) @ ''...'' @
     drop (length (Message_switch jr) - 71) (Message_switch jr)"
  by (simp add: JunitResult_Message_def Message_max_def Let_def)

text \<open>
  C2. The claim: a message longer than 140 bytes becomes its first 70 bytes, \<open>...\<close> and
  its last 69 bytes; a shorter one is returned as it is. The slice \<open>msg[l-h-1:]\<close> with
  \<open>h = 70\<close> starts 71 bytes before the end, so the code keeps the last 71 bytes: for a
  message of 141 bytes the result has 144 bytes and differs from the claimed one.
\<close>

theorem Message_tail_69_counterexample:
  "JunitResult_Message
     \<lparr>Name = ''t'', Time = (0::int), ClassName = '''',
      Failure = Some (replicate 141 CHR ''a''), Output = None, Error = None,
      Skipped = None\<rparr>
   \<noteq> take 70 (replicate 141 CHR ''a'') @ ''...'' @
       drop (length (replicate 141 CHR ''a'') - 69) (replicate 141 CHR ''a'')"
proof -
  let ?m = "replicate 141 CHR ''a''"
  let ?jr = "\<lparr>Name = ''t'', Time = (0::int), ClassName = '''',
      Failure = Some ?m, Output = None, Error = None, Skipped = None\<rparr>"
  have sw: "Message_switch ?jr = ?m"
    by (simp add: Message_switch_def split: list.split)
  have "length (JunitResult_Message ?jr) = 144"
    using Message_long [of ?jr] by (simp add: sw)
  moreover have "length (take 70 ?m @ ''...'' @ drop (length ?m - 69) ?m) = 142"
    by simp
  ultimately have "length (JunitResult_Message ?jr)
      \<noteq> length (take 70 ?m @ ''...'' @ drop (length ?m - 69) ?m)"
    by simp
  then show ?thesis
    by (rule contrapos_nn) simp
qed

text \<open>
  C2, amended. A message of at most 140 bytes is returned unchanged; a longer one becomes
  its first 70 bytes, \<open>...\<close> and its last 71 bytes, 144 bytes in all. The message is the
  one the \<open>switch\<close> selects (\<open>Message_switch\<close>).
\<close>

theorem Message_truncation:
  "(length (Message_switch jr) \<le> 140 \<longrightarrow> JunitResult_Message jr = Message_switch jr) \<and>
   (140 < length (Message_switch jr) \<longrightarrow>
      JunitResult_Message jr =
        take 70 (Message_switch jr) @ ''...'' @
        drop (length (Message_switch jr) - 71) (Message_switch jr) \<and>
      length (drop (length (Message_switch jr) - 71) (Message_switch jr)) = 71 \<and>
      length (JunitResult_Message jr) = 144)"
proof (intro conjI impI)
  assume "length (Message_switch jr) \<le> 140"
  then show "JunitResult_Message jr = Message_switch jr"
    by (rule Message_short)
next
  assume long: "140 < length (Message_switch jr)"
  then show eq: "JunitResult_Message jr =
        take 70 (Message_switch jr) @ ''...'' @
        drop (length (Message_switch jr) - 71) (Message_switch jr)"
    by (rule Message_long)
  from long show "length (drop (length (Message_switch jr) - 71) (Message_switch jr)) = 71"
    by simp
  from long show "length (JunitResult_Message jr) = 144"
    by (simp add: eq)
qed

theorem Message_truncation_witness:
  "JunitResult_Message
     \<lparr>Name = ''t'', Time = (0::int), ClassName = '''',
      Failure = None, Output = Some ''ok'', Error = None, Skipped = None\<rparr> = ''ok'' \<and>
   JunitResult_Message
     \<lparr>Name = ''t'', Time = (0::int), ClassName = '''',
      Failure = Some (replicate 70 CHR ''h'' @ ''0123456789'' @ replicate 70 CHR ''t''),
      Output = None, Error = None, Skipped = Some ''s''\<rparr>
     = replicate 70 CHR ''h'' @ ''...'' @ ''9'' @ replicate 70 CHR ''t''"
proof -
  let ?a = "\<lparr>Name = ''t'', Time = (0::int), ClassName = '''',
      Failure = None, Output = Some ''ok'', Error = None, Skipped = None\<rparr>"
  let ?m = "replicate 70 CHR ''h'' @ ''0123456789'' @ replicate 70 CHR ''t''"
  let ?b = "\<lparr>Name = ''t'', Time = (0::int), ClassName = '''',
      Failure = Some ?m, Output = None, Error = None, Skipped = Some ''s''\<rparr>"
  have a: "Message_switch ?a = ''ok''"
    by (simp add: Message_switch_def)
  have b: "Message_switch ?b = ?m"
    by (simp add: Message_switch_def split: list.split)
  have "JunitResult_Message ?a = ''ok''"
    using Message_truncation [of ?a] by (simp add: a)
  moreover have "JunitResult_Message ?b
      = replicate 70 CHR ''h'' @ ''...'' @ ''9'' @ replicate 70 CHR ''t''"
    using Message_truncation [of ?b] unfolding b by simp
  ultimately show ?thesis by simp
qed

subsection \<open>The overall row of a build\<close>

text \<open>
  C4. \<open>Overall\<close> has three cases. The build has finished when its \<open>Finished\<close> timestamp
  is positive: the result is \<open>PASS\<close> when the build passed and \<open>FAIL\<close> when it did not,
  and the metric \<open>seconds-elapsed\<close> is the conversion of \<open>Finished - Started\<close>. Otherwise,
  when the build started more than 24 hours (86400 seconds) before \<open>now\<close>, the result is
  \<open>FAIL\<close> with the message \<open>Testing did not complete within 24 hours\<close> and the icon
  \<open>T\<close>. Otherwise the result is \<open>RUNNING\<close> with the message
  \<open>Still running; has not finished...\<close> and the icon \<open>R\<close>.
\<close>

theorem Overall_cases:
  "(0 <s Finished br \<longrightarrow>
      (Passed br \<longrightarrow> Result (Overall float64 now br) = Row_PASS) \<and>
      (\<not> Passed br \<longrightarrow> Result (Overall float64 now br) = Row_FAIL) \<and>
      Metrics (Overall float64 now br) = [(elapsedKey, float64 (Finished br - Started br))]) \<and>
   (\<not> 0 <s Finished br \<and> sint (Started br) < now - 86400 \<longrightarrow>
      Result (Overall float64 now br) = Row_FAIL \<and>
      Message (Overall float64 now br) = ''Testing did not complete within 24 hours'' \<and>
      Icon (Overall float64 now br) = ''T'') \<and>
   (\<not> 0 <s Finished br \<and> \<not> sint (Started br) < now - 86400 \<longrightarrow>
      Result (Overall float64 now br) = Row_RUNNING \<and>
      Message (Overall float64 now br) = ''Still running; has not finished...'' \<and>
      Icon (Overall float64 now br) = ''R'')"
  by (simp add: Overall_def)

theorem Overall_cases_witness:
  "Result (Overall sint 1000000
     \<lparr>Id = ''b1'', Started = 900000, Finished = 900600, Passed = True, Rows = [],
      ColMetadata = []\<rparr>) = Row_PASS \<and>
   Result (Overall sint 1000000
     \<lparr>Id = ''b1'', Started = 900000, Finished = 900600, Passed = False, Rows = [],
      ColMetadata = []\<rparr>) = Row_FAIL \<and>
   Metrics (Overall sint 1000000
     \<lparr>Id = ''b1'', Started = 900000, Finished = 900600, Passed = True, Rows = [],
      ColMetadata = []\<rparr>) = [(elapsedKey, 600)] \<and>
   Icon (Overall sint 1000000
     \<lparr>Id = ''b2'', Started = 900000, Finished = 0, Passed = False, Rows = [],
      ColMetadata = []\<rparr>) = ''T'' \<and>
   Icon (Overall sint 1000000
     \<lparr>Id = ''b3'', Started = 999000, Finished = 0, Passed = False, Rows = [],
      ColMetadata = []\<rparr>) = ''R''"
  using
    Overall_cases [of "\<lparr>Id = ''b1'', Started = 900000, Finished = 900600, Passed = True,
      Rows = [], ColMetadata = []\<rparr>" sint 1000000]
    Overall_cases [of "\<lparr>Id = ''b1'', Started = 900000, Finished = 900600, Passed = False,
      Rows = [], ColMetadata = []\<rparr>" sint 1000000]
    Overall_cases [of "\<lparr>Id = ''b2'', Started = 900000, Finished = 0, Passed = False,
      Rows = [], ColMetadata = []\<rparr>" sint 1000000]
    Overall_cases [of "\<lparr>Id = ''b3'', Started = 999000, Finished = 0, Passed = False,
      Rows = [], ColMetadata = []\<rparr>" sint 1000000]
  by (simp add: word_sless_alt)

subsection \<open>Run-length encoded results\<close>

lemma even_list_snoc2:
  assumes "even (length rs)" "rs \<noteq> []"
  shows "\<exists>rs' v c. rs = rs' @ [v, c] \<and> even (length rs')"
proof -
  from assms have b: "butlast rs \<noteq> []" by (cases rs; cases "tl rs") auto
  have "rs = butlast (butlast rs) @ [last (butlast rs), last rs]"
    using assms(2) b by (metis append_butlast_last_id append_Cons append_Nil append_assoc)
  moreover have "even (length (butlast (butlast rs)))"
    using assms b by (cases rs; cases "tl rs") auto
  ultimately show ?thesis by blast
qed

lemma cells_append:
  "even (length xs) \<Longrightarrow> cells P (xs @ ys) = cells P xs + cells P ys"
  by (induction P xs rule: cells.induct) auto

lemma odds_append:
  "even (length xs) \<Longrightarrow> odds (xs @ ys) = odds xs @ odds ys"
  by (induction xs rule: odds.induct) auto

lemma counts_sum_cells: "counts_sum rs = cells (\<lambda>_. True) rs"
  unfolding counts_sum_def by (induction rs rule: odds.induct) auto

lemma sint_add_count:
  fixes c :: "32 word"
  assumes "0 \<le> sint c" "0 \<le> k" "sint c + k < 2 ^ 31"
  shows "sint (c + word_of_int k) = sint c + k"
proof -
  have "c + word_of_int k = word_of_int (sint c + k)" by simp
  then have "sint (c + word_of_int k) = signed_take_bit 31 (sint c + k)"
    by (simp only: sint_sbintrunc') simp
  also have "\<dots> = sint c + k"
    using assms by (intro signed_take_bit_int_eq_self) auto
  finally show ?thesis .
qed

lemma sint_of_count:
  assumes "0 \<le> k" "k < 2 ^ 31"
  shows "sint (word_of_int k :: 32 word) = k"
  using sint_add_count [of 0 k] assms by simp

lemma cells_nonneg: "list_all (\<lambda>c. 0 \<le> sint c) (odds rs) \<Longrightarrow> 0 \<le> cells P rs"
  by (induction P rs rule: cells.induct) auto

lemma rle_ok_Nil: "rle_ok []"
  by (simp add: rle_ok_def)

lemma rle_ok_snoc:
  "rle_ok (rs @ [v, c]) \<longleftrightarrow> rle_ok rs \<and> 0 \<le> sint c"
  by (auto simp: rle_ok_def odds_append)

lemma cells_snoc:
  "even (length rs) \<Longrightarrow> cells P (rs @ [v, c]) = cells P rs + (if P v then sint c else 0)"
  by (simp add: cells_append)

lemma AppendResult_Some:
  assumes "length (Results row) \<noteq> 1"
  shows "AppendResult int32 row x k =
        Some (row\<lparr>Results :=
                   (if Results row = [] \<or>
                       Results row ! (length (Results row) - 2) \<noteq> int32 (Result x)
                    then Results row @ [int32 (Result x), word_of_int k]
                    else (Results row)[length (Results row) - 1 :=
                           Results row ! (length (Results row) - 1) + word_of_int k]),
                  CellIds := CellIds row @ replicate (nat k) '''',
                  Messages := (if Result x \<noteq> Row_NO_RESULT
                     then Messages row @ replicate (nat k) (Message x) else Messages row),
                  Icons := (if Result x \<noteq> Row_NO_RESULT
                     then Icons row @ replicate (nat k) (Icon x) else Icons row)\<rparr>)"
  using assms by (simp add: AppendResult_def Let_def)

lemma AppendResult_Results:
  assumes ok: "rle_ok (Results row)" and k: "0 \<le> k"
    and bound: "counts_sum (Results row) + k < 2 ^ 31"
  shows "\<exists>rs. rle_ok rs \<and>
      (\<forall>P. cells P rs = cells P (Results row) + (if P (int32 (Result x)) then k else 0)) \<and>
      AppendResult int32 row x k =
        Some (row\<lparr>Results := rs,
                  CellIds := CellIds row @ replicate (nat k) '''',
                  Messages := (if Result x \<noteq> Row_NO_RESULT
                     then Messages row @ replicate (nat k) (Message x) else Messages row),
                  Icons := (if Result x \<noteq> Row_NO_RESULT
                     then Icons row @ replicate (nat k) (Icon x) else Icons row)\<rparr>)"
proof -
  let ?rs = "if Results row = [] \<or>
                       Results row ! (length (Results row) - 2) \<noteq> int32 (Result x)
                    then Results row @ [int32 (Result x), word_of_int k]
                    else (Results row)[length (Results row) - 1 :=
                           Results row ! (length (Results row) - 1) + word_of_int k]"
  from ok have ev: "even (length (Results row))" by (simp add: rle_ok_def)
  then have "length (Results row) \<noteq> 1" by auto
  note step = AppendResult_Some [OF this, of int32 x k]
  have "rle_ok ?rs \<and>
      (\<forall>P. cells P ?rs = cells P (Results row) + (if P (int32 (Result x)) then k else 0))"
  proof (cases "Results row = []")
    case True
    have "k < 2 ^ 31" using bound True by (simp add: counts_sum_def)
    then have s: "sint (word_of_int k :: 32 word) = k" using k by (rule sint_of_count [rotated])
    show ?thesis using True k s by (simp add: rle_ok_def)
  next
    case False
    from even_list_snoc2 [OF ev False] obtain rs' v c
      where rs: "Results row = rs' @ [v, c]" and ev': "even (length rs')" by blast
    from ok rs have ok': "rle_ok rs'" and c0: "0 \<le> sint c" by (simp_all add: rle_ok_snoc)
    have nn: "0 \<le> counts_sum rs'"
      using ok' by (simp add: counts_sum_cells cells_nonneg rle_ok_def)
    have cs: "counts_sum (Results row) = counts_sum rs' + sint c"
      by (simp add: rs counts_sum_cells cells_snoc ev')
    have n2: "Results row ! (length (Results row) - 2) = v"
      by (simp add: rs nth_append)
    have n1: "Results row ! (length (Results row) - 1) = c"
      by (simp add: rs nth_append)
    show ?thesis
    proof (cases "v = int32 (Result x)")
      case neq: False
      have "k < 2 ^ 31" using bound cs nn c0 by simp
      then have s: "sint (word_of_int k :: 32 word) = k"
        using k by (rule sint_of_count [rotated])
      have "?rs = Results row @ [int32 (Result x), word_of_int k]"
        using neq n2 by simp
      moreover have "rle_ok (Results row @ [int32 (Result x), word_of_int k])"
        using ok s k by (simp add: rle_ok_snoc)
      moreover have "\<forall>P. cells P (Results row @ [int32 (Result x), word_of_int k])
          = cells P (Results row) + (if P (int32 (Result x)) then k else 0)"
        using ev s by (simp add: cells_snoc)
      ultimately show ?thesis by simp
    next
      case eq: True
      have s: "sint (c + word_of_int k) = sint c + k"
        using c0 k bound cs nn by (intro sint_add_count) auto
      have "?rs = (Results row)[length (Results row) - 1 := c + word_of_int k]"
        using eq n2 n1 False by simp
      also have "\<dots> = rs' @ [v, c + word_of_int k]"
        by (simp add: rs list_update_append)
      finally have "?rs = rs' @ [v, c + word_of_int k]" .
      moreover have "rle_ok (rs' @ [v, c + word_of_int k])"
        using ok' s c0 k by (simp add: rle_ok_snoc)
      moreover have "\<forall>P. cells P (rs' @ [v, c + word_of_int k])
          = cells P (Results row) + (if P (int32 (Result x)) then k else 0)"
        using ev' s eq by (simp add: cells_snoc rs)
      ultimately show ?thesis by simp
    qed
  qed
  with step show ?thesis by blast
qed

text \<open>
  C9. A call of \<open>AppendResult\<close> on a row whose \<open>Results\<close> are well formed, with a count
  that is not negative and a total below \<open>2^31\<close> (so that no \<open>int32\<close> wraps), returns
  a row with well-formed \<open>Results\<close>; \<open>sum(Results[1::2])\<close> grows by the count; the count
  is the number of cell ids appended, each the empty string; \<open>len(Messages) = len(Icons)\<close>
  and \<open>len(CellIds) = sum(Results[1::2])\<close> are preserved; the messages and icons grow by
  the count when the result is not \<open>NO_RESULT\<close> and do not change when it is. The
  function is called with the count 1 and, for a new row of a grid with \<open>n > 1\<close> columns,
  with the count \<open>n - 1\<close>.
\<close>

theorem AppendResult_preserves:
  assumes "rle_ok (Results row)" and "0 \<le> count"
    and "counts_sum (Results row) + count < 2 ^ 31"
  shows "\<exists>row'. AppendResult int32 row rowResult count = Some row' \<and>
     rle_ok (Results row') \<and>
     counts_sum (Results row') = counts_sum (Results row) + count \<and>
     CellIds row' = CellIds row @ replicate (nat count) '''' \<and>
     (length (Messages row) = length (Icons row) \<longrightarrow>
        length (Messages row') = length (Icons row')) \<and>
     (int (length (CellIds row)) = counts_sum (Results row) \<longrightarrow>
        int (length (CellIds row')) = counts_sum (Results row')) \<and>
     (Result rowResult \<noteq> Row_NO_RESULT \<longrightarrow>
        Messages row' = Messages row @ replicate (nat count) (Message rowResult) \<and>
        Icons row' = Icons row @ replicate (nat count) (Icon rowResult)) \<and>
     (Result rowResult = Row_NO_RESULT \<longrightarrow>
        Messages row' = Messages row \<and> Icons row' = Icons row)"
proof -
  from AppendResult_Results [OF assms, of int32 rowResult] obtain rs where
    ok: "rle_ok rs" and
    c: "\<forall>P. cells P rs =
          cells P (Results row) + (if P (int32 (Result rowResult)) then count else 0)" and
    eq: "AppendResult int32 row rowResult count =
        Some (row\<lparr>Results := rs,
                  CellIds := CellIds row @ replicate (nat count) '''',
                  Messages := (if Result rowResult \<noteq> Row_NO_RESULT
                     then Messages row @ replicate (nat count) (Message rowResult)
                     else Messages row),
                  Icons := (if Result rowResult \<noteq> Row_NO_RESULT
                     then Icons row @ replicate (nat count) (Icon rowResult)
                     else Icons row)\<rparr>)"
    by blast
  from c have s: "counts_sum rs = counts_sum (Results row) + count"
    by (simp add: counts_sum_cells)
  show ?thesis
    unfolding eq using ok s assms(2) by simp
qed

theorem AppendResult_preserves_witness:
  "AppendResult Row_Result_number
     \<lparr>RowName = ''t'', RowId = ''t'', Results = [12, 2], CellIds = ['''', ''''],
      Messages = [''m'', ''m''], Icons = [''F'', ''F''],
      RowMetrics = ([] :: int Metric list)\<rparr>
     noResult 1
   = Some
     \<lparr>RowName = ''t'', RowId = ''t'', Results = [12, 2, 0, 1], CellIds = ['''', '''', ''''],
      Messages = [''m'', ''m''], Icons = [''F'', ''F''],
      RowMetrics = []\<rparr>"
  using AppendResult_preserves [of
     "\<lparr>RowName = ''t'', RowId = ''t'', Results = [12, 2], CellIds = ['''', ''''],
      Messages = [''m'', ''m''], Icons = [''F'', ''F''],
      RowMetrics = ([] :: int Metric list)\<rparr>" 1 Row_Result_number noResult]
  by (simp add: rle_ok_def counts_sum_def AppendResult_def noResult_def
      Row_Result_number_def)

subsection \<open>The headers of a column\<close>

lemma last_SplitN_2: "last (SplitN_2 s CHR ''+'') = after_first_plus s"
  by (simp add: SplitN_2_def after_first_plus_def)

text \<open>
  C5. The claim: for a finished build the header \<open>Commit\<close> is the metadata value of
  \<open>repo-commit\<close> cut to 9 bytes, and without \<open>repo-commit\<close> the part of the value of
  \<open>job-version\<close> after its last \<open>+\<close>. \<open>strings.SplitN(av, "+", 2)\<close> cuts at the first
  \<open>+\<close> only: for the version \<open>v1+abc+def\<close> the code records \<open>abc+def\<close>, the part after the
  last \<open>+\<close> is \<open>def\<close>.
\<close>

theorem header_Commit_last_plus_counterexample:
  "header_value
     \<lparr>Id = ''b1'', Started = 100, Finished = 200, Passed = True,
      Rows = ([] :: (string \<times> int Row list) list),
      ColMetadata = [(''job-version'', ''v1+abc+def'')]\<rparr> ''Commit'' = ''abc+def'' \<and>
   header_value
     \<lparr>Id = ''b1'', Started = 100, Finished = 200, Passed = True,
      Rows = ([] :: (string \<times> int Row list) list),
      ColMetadata = [(''job-version'', ''v1+abc+def'')]\<rparr> ''Commit''
     \<noteq> after_last_plus ''v1+abc+def''"
  by (simp add: header_value_def SplitN_2_def after_last_plus_def)

text \<open>
  C5, amended. For a finished build (\<open>Finished\<close> is not 0) the header \<open>Commit\<close> is the
  value of \<open>repo-commit\<close> cut to 9 bytes; without \<open>repo-commit\<close> it is the part of the value
  of \<open>job-version\<close> after its first \<open>+\<close> (the whole value when it has no \<open>+\<close>), cut to 9
  bytes as well; a header other than \<open>Commit\<close> whose key is missing is recorded as
  \<open>missing\<close>.
\<close>

theorem header_value_cases:
  assumes "Finished build \<noteq> 0"
  shows
   "(map_of (ColMetadata build) ''repo-commit'' = Some v \<longrightarrow>
       header_value build ''Commit'' = take 9 v) \<and>
    (map_of (ColMetadata build) ''repo-commit'' = None \<and>
     map_of (ColMetadata build) ''job-version'' = Some av \<longrightarrow>
       header_value build ''Commit'' = take 9 (after_first_plus av)) \<and>
    (h \<noteq> ''Commit'' \<and> map_of (ColMetadata build) h = None \<longrightarrow>
       header_value build h = ''missing'')"
  using assms by (simp add: header_value_def last_SplitN_2 Let_def)

theorem header_value_cases_witness:
  "header_value
     \<lparr>Id = ''b1'', Started = 100, Finished = 200, Passed = True,
      Rows = ([] :: (string \<times> int Row list) list),
      ColMetadata = [(''repo-commit'', ''0123456789abcdef'')]\<rparr> ''Commit''
     = ''012345678'' \<and>
   header_value
     \<lparr>Id = ''b1'', Started = 100, Finished = 200, Passed = True,
      Rows = ([] :: (string \<times> int Row list) list),
      ColMetadata = [(''job-version'', ''v1.11.0+9d3ab53e0b7a1c'')]\<rparr> ''Commit''
     = ''9d3ab53e0'' \<and>
   header_value
     \<lparr>Id = ''b1'', Started = 100, Finished = 200, Passed = True,
      Rows = ([] :: (string \<times> int Row list) list),
      ColMetadata = [(''job-version'', ''v1.11.0+9d3ab53e0b7a1c'')]\<rparr> ''infra-commit''
     = ''missing''"
  using
    header_value_cases [of
     "\<lparr>Id = ''b1'', Started = 100, Finished = 200, Passed = True,
      Rows = ([] :: (string \<times> int Row list) list),
      ColMetadata = [(''repo-commit'', ''0123456789abcdef'')]\<rparr>"
     "''0123456789abcdef''" "''''" "''x''"]
    header_value_cases [of
     "\<lparr>Id = ''b1'', Started = 100, Finished = 200, Passed = True,
      Rows = ([] :: (string \<times> int Row list) list),
      ColMetadata = [(''job-version'', ''v1.11.0+9d3ab53e0b7a1c'')]\<rparr>"
     "''''" "''v1.11.0+9d3ab53e0b7a1c''" "''infra-commit''"]
  by (simp add: after_first_plus_def)

subsection \<open>The column of one build\<close>

lemma failing_record_iff: "failing_record rs \<longleftrightarrow> (\<exists>r \<in> set rs. Result r = Row_FAIL)"
  by (induction rs) auto

lemma failing_test_iff:
  "failing_test m \<longleftrightarrow>
     (\<exists>(n, rs) \<in> set m. n \<noteq> ''Overall'' \<and> (\<exists>r \<in> set rs. Result r = Row_FAIL))"
  by (induction m rule: failing_test.induct) (auto simp: failing_record_iff)

lemma failing_test_Rows_append:
  "failing_test (Rows_append m t rs) \<longleftrightarrow>
     failing_test m \<or> (t \<noteq> ''Overall'' \<and> (\<exists>r \<in> set rs. Result r = Row_FAIL))"
  by (induction m t rs rule: Rows_append.induct) (auto simp: failing_record_iff)

lemma failing_test_fold:
  "failing_test (fold (\<lambda>(t, rs) m. Rows_append m t rs) rows m) \<longleftrightarrow>
     failing_test m \<or>
     (\<exists>(n, rs) \<in> set rows. n \<noteq> ''Overall'' \<and> (\<exists>r \<in> set rs. Result r = Row_FAIL))"
  by (induction rows arbitrary: m) (auto simp: failing_test_Rows_append)

lemma Rows_append_head:
  "\<exists>rest m'. Rows_append ((''Overall'', r # rs0) # m) t rs = (''Overall'', r # rest) # m'"
  by simp

lemma fold_Rows_append_head:
  "\<exists>rest m'. fold (\<lambda>(t, rs) m. Rows_append m t rs) rows ((''Overall'', r # rs0) # m)
     = (''Overall'', r # rest) # m'"
proof (induction rows arbitrary: rs0 m)
  case Nil
  then show ?case by simp
next
  case (Cons a rows)
  obtain t rs where a: "a = (t, rs)" by (cases a)
  from Rows_append_head [of r rs0 m t rs] obtain rest m'
    where "Rows_append ((''Overall'', r # rs0) # m) t rs = (''Overall'', r # rest) # m'"
    by blast
  with Cons.IH [of rest m'] show ?case by (simp add: a)
qed

text \<open>
  C8. A build whose \<open>finished.json\<close> was read (\<open>running\<close> is false), whose artifacts were
  all read (\<open>ec\<close> delivers \<open>nil\<close>) and whose overall row has the result \<open>FAIL\<close>. When no
  row other than \<open>Overall\<close> has a record with the result \<open>FAIL\<close>, the first record of the
  row \<open>Overall\<close> of the column returned is the overall row with the icon \<open>F\<close> and the
  message \<open>Build failed outside of test results\<close>; when some other row has such a record,
  it is the overall row unchanged. \<open>rest\<close> are the records of a test that is itself named
  \<open>Overall\<close>.
\<close>

theorem ReadBuild_failed_outside:
  assumes wait: "ReadBuild_wait msgs None None = Some (Inr (started, finished))"
    and fin: "\<not> running finished"
    and ov: "overall = Overall float64 now
       \<lparr>Id = path_Base prefix, Started = Timestamp started,
        Finished = FinTimestamp finished, Passed = FinPassed finished, Rows = [],
        ColMetadata = ColumnMetadata (FinMetadata finished)\<rparr>"
    and fail: "Result overall = Row_FAIL"
  shows
    "((\<forall>(n, rs) \<in> set rows. n \<noteq> ''Overall'' \<longrightarrow> (\<forall>r \<in> set rs. Result r \<noteq> Row_FAIL)) \<longrightarrow>
       (\<exists>col rest. ReadBuild float64 now prefix msgs (EcRecv None) rows = Some (Inr col) \<and>
          map_of (Rows col) ''Overall'' =
            Some (overall\<lparr>Icon := ''F'', Message := ''Build failed outside of test results''\<rparr>
                  # rest))) \<and>
     ((\<exists>(n, rs) \<in> set rows. n \<noteq> ''Overall'' \<and> (\<exists>r \<in> set rs. Result r = Row_FAIL)) \<longrightarrow>
       (\<exists>col rest. ReadBuild float64 now prefix msgs (EcRecv None) rows = Some (Inr col) \<and>
          map_of (Rows col) ''Overall'' = Some (overall # rest)))"
proof -
  let ?m = "fold (\<lambda>(t, rs) m. Rows_append m t rs) rows [(''Overall'', [overall])]"
  from fold_Rows_append_head [of rows overall "[]" "[]"] obtain rest m'
    where m: "?m = (''Overall'', overall # rest) # m'" by blast
  have ft: "failing_test ?m \<longleftrightarrow>
      (\<exists>(n, rs) \<in> set rows. n \<noteq> ''Overall'' \<and> (\<exists>r \<in> set rs. Result r = Row_FAIL))"
    by (simp add: failing_test_fold)
  show ?thesis
  proof (intro conjI impI)
    assume "\<forall>(n, rs) \<in> set rows. n \<noteq> ''Overall'' \<longrightarrow> (\<forall>r \<in> set rs. Result r \<noteq> Row_FAIL)"
    then have "\<not> failing_test ?m" unfolding ft by fastforce
    then show "\<exists>col rest. ReadBuild float64 now prefix msgs (EcRecv None) rows = Some (Inr col) \<and>
          map_of (Rows col) ''Overall'' =
            Some (overall\<lparr>Icon := ''F'', Message := ''Build failed outside of test results''\<rparr>
                  # rest)"
      using wait fin fail ov [symmetric] m by (simp add: ReadBuild_def Let_def)
  next
    assume "\<exists>(n, rs) \<in> set rows. n \<noteq> ''Overall'' \<and> (\<exists>r \<in> set rs. Result r = Row_FAIL)"
    then have "failing_test ?m" unfolding ft .
    then show "\<exists>col rest. ReadBuild float64 now prefix msgs (EcRecv None) rows = Some (Inr col) \<and>
          map_of (Rows col) ''Overall'' = Some (overall # rest)"
      using wait fin fail ov [symmetric] m by (simp add: ReadBuild_def Let_def)
  qed
qed

text \<open>
  C10. A build without \<open>finished.json\<close> (the running sentinel): whatever the artifacts
  gave (\<open>rows\<close>) and whatever the second \<open>select\<close> would receive, \<open>ReadBuild\<close> returns the
  column whose only row is \<open>Overall\<close>, with the one record \<open>Overall()\<close> computes, and
  whose \<open>Finished\<close>, \<open>Passed\<close> and \<open>Metadata\<close> are zero, false and empty.
\<close>

theorem ReadBuild_running:
  assumes wait: "ReadBuild_wait msgs None None = Some (Inr (started, finished))"
    and run: "running finished"
  shows "ReadBuild float64 now prefix msgs sync rows =
     Some (Inr
       \<lparr>Id = path_Base prefix, Started = Timestamp started, Finished = 0, Passed = False,
        Rows = [(''Overall'',
           [Overall float64 now
              \<lparr>Id = path_Base prefix, Started = Timestamp started, Finished = 0,
               Passed = False, Rows = [], ColMetadata = []\<rparr>])],
        ColMetadata = []\<rparr>)"
  using assms by (simp add: ReadBuild_def)

theorem ReadBuild_failed_outside_witness:
  "(\<exists>col rest.
      ReadBuild sint 5000 ''logs/job/12/''
        [RecvStarted \<lparr>Timestamp = 1000, RepoVersion = '''', Node = '''', Pull = '''',
                       Repos = []\<rparr>,
         RecvFinished \<lparr>FinTimestamp = 1600, FinPassed = False, JobVersion = '''',
                        FinMetadata = [], running = False\<rparr>]
        (EcRecv None) [] = Some (Inr col) \<and>
      map_of (Rows col) ''Overall'' =
        Some (\<lparr>Result = Row_FAIL, Metrics = [(elapsedKey, 600)],
               Metadata = [(''Tests name'', ''Overall'')],
               Message = ''Build failed outside of test results'', Icon = ''F''\<rparr> # rest)) \<and>
   (\<exists>col rest.
      ReadBuild sint 5000 ''logs/job/12/''
        [RecvStarted \<lparr>Timestamp = 1000, RepoVersion = '''', Node = '''', Pull = '''',
                       Repos = []\<rparr>,
         RecvFinished \<lparr>FinTimestamp = 1600, FinPassed = False, JobVersion = '''',
                        FinMetadata = [], running = False\<rparr>]
        (EcRecv None)
        [(''T'', [\<lparr>Result = Row_FAIL, Metrics = [], Metadata = [(''Tests name'', ''T'')],
                   Message = ''boom'', Icon = ''F''\<rparr>])] = Some (Inr col) \<and>
      map_of (Rows col) ''Overall'' =
        Some (\<lparr>Result = Row_FAIL, Metrics = [(elapsedKey, 600)],
               Metadata = [(''Tests name'', ''Overall'')],
               Message = '''', Icon = ''''\<rparr> # rest))"
proof -
  let ?s = "\<lparr>Timestamp = 1000, RepoVersion = '''', Node = '''', Pull = '''', Repos = []\<rparr>"
  let ?f = "\<lparr>FinTimestamp = 1600, FinPassed = False, JobVersion = '''',
             FinMetadata = ([] :: (string \<times> int any) list), running = False\<rparr>"
  let ?msgs = "[RecvStarted ?s, RecvFinished ?f]"
  let ?o = "\<lparr>Result = Row_FAIL, Metrics = [(elapsedKey, 600::int)],
               Metadata = [(''Tests name'', ''Overall'')],
               Message = '''', Icon = ''''\<rparr>"
  have w: "ReadBuild_wait ?msgs None None = Some (Inr (?s, ?f))"
    by simp
  have nr: "\<not> running ?f"
    by simp
  have ov: "?o = Overall sint 5000
       \<lparr>Id = path_Base ''logs/job/12/'', Started = Timestamp ?s,
        Finished = FinTimestamp ?f, Passed = FinPassed ?f, Rows = [],
        ColMetadata = ColumnMetadata (FinMetadata ?f)\<rparr>"
    by (simp add: Overall_def word_sless_alt)
  have fl: "Result ?o = Row_FAIL"
    by simp
  show ?thesis
    using ReadBuild_failed_outside [OF w nr ov fl, of "[]"]
      ReadBuild_failed_outside [OF w nr ov fl, of
        "[(''T'', [\<lparr>Result = Row_FAIL, Metrics = [], Metadata = [(''Tests name'', ''T'')],
                   Message = ''boom'', Icon = ''F''\<rparr>])]"]
    by simp
qed

theorem ReadBuild_running_witness:
  "ReadBuild sint 5000 ''logs/job/13/''
     [RecvFinished \<lparr>FinTimestamp = 0, FinPassed = False, JobVersion = '''',
                     FinMetadata = [], running = True\<rparr>,
      RecvStarted \<lparr>Timestamp = 4400, RepoVersion = '''', Node = '''', Pull = '''',
                    Repos = []\<rparr>]
     CtxDone
     [(''T'', [\<lparr>Result = Row_PASS, Metrics = [], Metadata = [(''Tests name'', ''T'')],
                Message = '''', Icon = ''''\<rparr>])]
   = Some (Inr
       \<lparr>Id = ''13'', Started = 4400, Finished = 0, Passed = False,
        Rows = [(''Overall'',
           [\<lparr>Result = Row_RUNNING, Metrics = [],
             Metadata = [(''Tests name'', ''Overall'')],
             Message = ''Still running; has not finished...'', Icon = ''R''\<rparr>])],
        ColMetadata = []\<rparr>)"
proof -
  let ?s = "\<lparr>Timestamp = 4400, RepoVersion = '''', Node = '''', Pull = '''', Repos = []\<rparr>"
  let ?f = "\<lparr>FinTimestamp = 0, FinPassed = False, JobVersion = '''',
             FinMetadata = ([] :: (string \<times> int any) list), running = True\<rparr>"
  have w: "ReadBuild_wait [RecvFinished ?f, RecvStarted ?s] None None = Some (Inr (?s, ?f))"
    by simp
  have r: "running ?f"
    by simp
  show ?thesis
    using ReadBuild_running [OF w r, of sint 5000 "''logs/job/13/''" CtxDone
        "[(''T'', [\<lparr>Result = Row_PASS, Metrics = [], Metadata = [(''Tests name'', ''T'')],
                Message = '''', Icon = ''''\<rparr>])]"]
    by (simp add: Overall_def path_Base_def word_sless_alt)
qed

subsection \<open>The rows of the grid\<close>

lemma row_inv_new:
  "row_inv int32 0
     \<lparr>RowName = name, RowId = target, Results = [], CellIds = [], Messages = [], Icons = [],
      RowMetrics = []\<rparr>"
  by (simp add: row_inv_def rle_ok_def counts_sum_def)

lemma AppendResult_row_inv:
  assumes inv: "row_inv int32 n r" and k: "0 \<le> k" and bound: "int n + k < 2 ^ 31"
  shows "\<exists>r'. AppendResult int32 r x k = Some r' \<and> row_inv int32 (n + nat k) r'"
proof -
  from inv have ok: "rle_ok (Results r)" and cs: "counts_sum (Results r) = int n"
    by (simp_all add: row_inv_def)
  from bound cs have b: "counts_sum (Results r) + k < 2 ^ 31" by simp
  from AppendResult_Results [OF ok k b, of int32 x] obtain rs where
    ok': "rle_ok rs" and
    c: "\<forall>P. cells P rs = cells P (Results r) + (if P (int32 (Result x)) then k else 0)" and
    eq: "AppendResult int32 r x k =
        Some (r\<lparr>Results := rs,
                CellIds := CellIds r @ replicate (nat k) '''',
                Messages := (if Result x \<noteq> Row_NO_RESULT
                   then Messages r @ replicate (nat k) (Message x) else Messages r),
                Icons := (if Result x \<noteq> Row_NO_RESULT
                   then Icons r @ replicate (nat k) (Icon x) else Icons r)\<rparr>)"
    by blast
  from c cs have s: "counts_sum rs = int n + k"
    by (simp add: counts_sum_cells)
  have m: "distinct_NO_RESULT int32 \<Longrightarrow>
      (int32 (Result x) \<noteq> int32 Row_NO_RESULT) = (Result x \<noteq> Row_NO_RESULT)"
    by (auto simp: distinct_NO_RESULT_def)
  have "row_inv int32 (n + nat k)
      (r\<lparr>Results := rs,
                CellIds := CellIds r @ replicate (nat k) '''',
                Messages := (if Result x \<noteq> Row_NO_RESULT
                   then Messages r @ replicate (nat k) (Message x) else Messages r),
                Icons := (if Result x \<noteq> Row_NO_RESULT
                   then Icons r @ replicate (nat k) (Icon x) else Icons r)\<rparr>)"
    using inv ok' s k c m by (auto simp: row_inv_def)
  with eq show ?thesis by simp
qed

lemma FindMetric_loop_less: "FindMetric_loop ms name = Some i \<Longrightarrow> i < length ms"
  by (induction ms arbitrary: i) (auto split: if_splits)

lemma AppendMetric_ok:
  assumes "length (Indices m) \<noteq> 1"
  shows "\<exists>m'. AppendMetric m idx v = Some m' \<and> length (Indices m') \<noteq> 1"
  using assms by (auto simp: AppendMetric_def Let_def)

lemma AppendColumn_metric_ok:
  assumes "metrics_ok r"
  shows "\<exists>r'. AppendColumn_metric kv r = Some r' \<and> metrics_ok r' \<and>
     Results r' = Results r \<and> CellIds r' = CellIds r \<and> Messages r' = Messages r \<and>
     Icons r' = Icons r"
proof -
  obtain k v where kv: "kv = (k, v)" by (cases kv)
  show ?thesis
  proof (cases "FindMetric r k")
    case None
    let ?new = "\<lparr>MetricName = k, Indices = [], Values = ([] :: 'a list)\<rparr>"
    from AppendMetric_ok [of ?new "word_of_nat (length (Messages r))" v]
    obtain m' where m': "AppendMetric ?new (word_of_nat (length (Messages r))) v = Some m'"
      and l: "length (Indices m') \<noteq> 1" by auto
    show ?thesis
      using None m' l assms
      by (simp add: AppendColumn_metric_def kv metrics_ok_def list_all_iff)
  next
    case (Some i)
    then have i: "i < length (RowMetrics r)"
      by (simp add: FindMetric_def FindMetric_loop_less)
    with assms have "length (Indices (RowMetrics r ! i)) \<noteq> 1"
      by (simp add: metrics_ok_def list_all_length)
    from AppendMetric_ok [OF this, of "word_of_nat (length (Messages r))" v]
    obtain m' where m': "AppendMetric (RowMetrics r ! i) (word_of_nat (length (Messages r))) v
        = Some m'"
      and l: "length (Indices m') \<noteq> 1" by auto
    have "list_all (\<lambda>m. length (Indices m) \<noteq> 1) ((RowMetrics r)[i := m'])"
      using assms l by (auto simp: metrics_ok_def list_all_iff dest!: set_update_subset_insert [THEN subsetD])
    then show ?thesis
      using Some m' by (simp add: AppendColumn_metric_def kv metrics_ok_def)
  qed
qed

lemma fold_AppendColumn_metric_ok:
  assumes "metrics_ok r"
  shows "\<exists>r'. fold_option AppendColumn_metric ms r = Some r' \<and> metrics_ok r' \<and>
     Results r' = Results r \<and> CellIds r' = CellIds r \<and> Messages r' = Messages r \<and>
     Icons r' = Icons r"
  using assms
proof (induction ms arbitrary: r)
  case Nil
  then show ?case by simp
next
  case (Cons kv ms)
  from AppendColumn_metric_ok [OF Cons.prems, of kv] obtain r1 where
    r1: "AppendColumn_metric kv r = Some r1" "metrics_ok r1"
      "Results r1 = Results r" "CellIds r1 = CellIds r" "Messages r1 = Messages r"
      "Icons r1 = Icons r" by blast
  from Cons.IH [OF r1(2)] r1 show ?case by auto
qed

lemma row_inv_cong:
  assumes "row_inv int32 n r" "metrics_ok r'"
    "Results r' = Results r" "CellIds r' = CellIds r" "Messages r' = Messages r"
    "Icons r' = Icons r"
  shows "row_inv int32 n r'"
  using assms by (auto simp: row_inv_def metrics_ok_def)

lemma AppendResult_metrics_row_inv:
  assumes inv: "row_inv int32 n r" and bound: "int n + 1 < 2 ^ 31"
  shows "\<exists>r'. (case AppendResult int32 r br 1 of
                 None \<Rightarrow> None
               | Some row1 \<Rightarrow> fold_option AppendColumn_metric (Metrics br) row1) = Some r' \<and>
              row_inv int32 (n + 1) r'"
proof -
  from AppendResult_row_inv [OF inv _ bound, of br] obtain r1 where
    r1: "AppendResult int32 r br 1 = Some r1" and i1: "row_inv int32 (n + 1) r1" by auto
  from i1 have "metrics_ok r1" by (simp add: row_inv_def metrics_ok_def)
  from fold_AppendColumn_metric_ok [OF this, of "Metrics br"] obtain r' where
    r': "fold_option AppendColumn_metric (Metrics br) r1 = Some r'" "metrics_ok r'"
      "Results r' = Results r1" "CellIds r' = CellIds r1" "Messages r' = Messages r1"
      "Icons r' = Icons r1" by blast
  from row_inv_cong [OF i1 r'(2-6)] r1 r'(1) show ?thesis by simp
qed

lemma unique_name_not_found: "unique_name prefix found name idx \<notin> set found"
  by (induction prefix found name idx rule: unique_name.induct)
     (subst unique_name.simps, simp)

lemma update_row_Some:
  "p < length (GridRows g) \<Longrightarrow> f (GridRows g ! p) = Some r' \<Longrightarrow>
   update_row p f g = Some (g\<lparr>GridRows := (GridRows g)[p := r']\<rparr>)"
  by (simp add: update_row_def)

lemma pointer_less:
  "map snd rows = [0..<N] \<Longrightarrow> (k, p) \<in> set rows \<Longrightarrow> p < N"
proof -
  assume a: "map snd rows = [0..<N]" and b: "(k, p) \<in> set rows"
  from b have "p \<in> set (map snd rows)" by force
  with a show ?thesis by simp
qed

lemma pointer_name:
  "distinct (map snd rows) \<Longrightarrow> (a, p) \<in> set rows \<Longrightarrow> (b, p) \<in> set rows \<Longrightarrow> a = b"
  by (induction rows) force+

lemma name_pointer:
  "distinct (map fst rows) \<Longrightarrow> (k, p) \<in> set rows \<Longrightarrow> (k, q) \<in> set rows \<Longrightarrow> p = q"
  by (induction rows) force+

lemma pointers_distinct: "map snd rows = [0..<N] \<Longrightarrow> distinct (map snd rows)"
  by simp

lemma filter_missing:
  "filter (\<lambda>(k, p). k \<noteq> name) (filter (\<lambda>(k, p). k \<notin> set found) rows)
     = filter (\<lambda>(k, p). k \<notin> set (name # found)) rows"
  by (induction rows) auto

lemma AppendColumn_record_unfold:
  assumes "name = unique_name (Row_Format Sprintf br config (ColMetadata build)) found
                   (Row_Format Sprintf br config (ColMetadata build)) 1"
    and "F = (\<lambda>row. case AppendResult int32 row br 1 of
                               None \<Rightarrow> None
                             | Some row1 \<Rightarrow> fold_option AppendColumn_metric (Metrics br) row1)"
    and "N = length (GridRows grid)"
  shows "AppendColumn_record int32 Sprintf config build target br (grid, rows, missing, found) =
     (case map_of rows name of
           Some r \<Rightarrow>
             map_option (\<lambda>g. (g, rows, filter (\<lambda>(k, p). k \<noteq> name) missing, name # found))
               (update_row r F grid)
         | None \<Rightarrow>
             (case (if length (Columns grid) > 1
                       then update_row N
                              (\<lambda>row. AppendResult int32 row noResult (int (length (Columns grid)) - 1))
                              (grid\<lparr>GridRows := GridRows grid @
                                  [\<lparr>RowName = name, RowId = target, Results = [],
                                    CellIds = [], Messages = [], Icons = [],
                                    RowMetrics = []\<rparr>]\<rparr>)
                       else Some (grid\<lparr>GridRows := GridRows grid @
                                  [\<lparr>RowName = name, RowId = target, Results = [],
                                    CellIds = [], Messages = [], Icons = [],
                                    RowMetrics = []\<rparr>]\<rparr>)) of
                   None \<Rightarrow> None
                 | Some grid2 \<Rightarrow>
                     map_option (\<lambda>g. (g, rows @ [(name, N)],
                                       filter (\<lambda>(k, p). k \<noteq> name) missing, name # found))
                       (update_row N F grid2)))"
  unfolding assms by (simp add: AppendColumn_record_def Let_def split: option.splits)

lemma AppendColumn_record_inv:
  assumes L: "loop_inv int32 n cs st" and bound: "int n + 1 < 2 ^ 31"
  shows "\<exists>st'. AppendColumn_record int32 Sprintf config build target br st = Some st' \<and>
               loop_inv int32 n cs st'"
proof -
  obtain grid rows missing found where st: "st = (grid, rows, missing, found)"
    by (cases st) auto
  define name where "name = unique_name (Row_Format Sprintf br config (ColMetadata build)) found
                   (Row_Format Sprintf br config (ColMetadata build)) 1"
  define F where "F = (\<lambda>row. case AppendResult int32 row br 1 of
                               None \<Rightarrow> None
                             | Some row1 \<Rightarrow> fold_option AppendColumn_metric (Metrics br) row1)"
  define N where "N = length (GridRows grid)"
  from L have colseq: "Columns grid = cs" and cols: "length (Columns grid) = n + 1"
    by (auto simp: loop_inv_def st)
  from L have ptr: "map snd rows = [0..<N]"
    and dist: "distinct (map fst rows)"
    and miss: "missing = filter (\<lambda>(k, p). k \<notin> set found) rows"
    and all: "list_all (\<lambda>(k, p). row_inv int32 (if k \<in> set found then n + 1 else n)
                              (GridRows grid ! p)) rows"
    by (simp_all add: loop_inv_def st N_def)
  have nf: "name \<notin> set found"
    unfolding name_def by (rule unique_name_not_found)
  have miss1: "filter (\<lambda>(k, p). k \<noteq> name) missing
      = filter (\<lambda>(k, p). k \<notin> set (name # found)) rows"
    unfolding miss by (rule filter_missing)
  have F: "\<And>r. row_inv int32 n r \<Longrightarrow> \<exists>r'. F r = Some r' \<and> row_inv int32 (n + 1) r'"
    unfolding F_def using AppendResult_metrics_row_inv [OF _ bound] by blast
  show ?thesis
  proof (cases "map_of rows name")
    case (Some p)
    then have mem: "(name, p) \<in> set rows" by (rule map_of_SomeD)
    with ptr have p: "p < N" by (rule pointer_less)
    from all mem nf have "row_inv int32 n (GridRows grid ! p)"
      by (auto simp: list_all_iff)
    from F [OF this] obtain r' where r': "F (GridRows grid ! p) = Some r'"
      and ri: "row_inv int32 (n + 1) r'" by blast
    let ?g = "grid\<lparr>GridRows := (GridRows grid)[p := r']\<rparr>"
    from p r' have upd: "update_row p F grid = Some ?g"
      by (intro update_row_Some) (simp_all add: N_def)
    have eq: "AppendColumn_record int32 Sprintf config build target br st
        = Some (?g, rows, filter (\<lambda>(k, p). k \<noteq> name) missing, name # found)"
      unfolding st AppendColumn_record_unfold [OF name_def F_def N_def]
      using Some upd by simp
    have "list_all (\<lambda>(k, q). row_inv int32 (if k \<in> set (name # found) then n + 1 else n)
                              ((GridRows grid)[p := r'] ! q)) rows"
      unfolding list_all_iff
    proof (clarify)
      fix k q assume kq: "(k, q) \<in> set rows"
      show "row_inv int32 (if k \<in> set (name # found) then n + 1 else n)
              ((GridRows grid)[p := r'] ! q)"
      proof (cases "q = p")
        case True
        with kq mem pointer_name [OF pointers_distinct [OF ptr]] have "k = name" by blast
        with True ri p show ?thesis by (simp add: N_def)
      next
        case False
        with kq mem name_pointer [OF dist] have "k \<noteq> name" by blast
        moreover from all kq have
          "row_inv int32 (if k \<in> set found then n + 1 else n) (GridRows grid ! q)"
          by (auto simp: list_all_iff)
        ultimately show ?thesis using False by simp
      qed
    qed
    then have "loop_inv int32 n cs (?g, rows, filter (\<lambda>(k, p). k \<noteq> name) missing, name # found)"
      using colseq cols ptr dist miss1 by (simp add: loop_inv_def N_def)
    with eq show ?thesis by blast
  next
    case None
    then have fresh: "name \<notin> fst ` set rows" by (simp add: map_of_eq_None_iff)
    let ?new = "\<lparr>RowName = name, RowId = target, Results = [],
                                    CellIds = [], Messages = [], Icons = [],
                                    RowMetrics = ([] :: 'a Metric list)\<rparr>"
    let ?grid1 = "grid\<lparr>GridRows := GridRows grid @ [?new]\<rparr>"
    have "\<exists>r0. (if length (Columns grid) > 1
                       then update_row N
                              (\<lambda>row. AppendResult int32 row noResult (int (length (Columns grid)) - 1))
                              ?grid1
                       else Some ?grid1) = Some (grid\<lparr>GridRows := GridRows grid @ [r0]\<rparr>) \<and>
                row_inv int32 n r0"
    proof (cases "length (Columns grid) > 1")
      case True
      from bound have b: "int 0 + int n < 2 ^ 31" by simp
      from AppendResult_row_inv [OF row_inv_new _ b, of int32 name target noResult]
      obtain r0 where r0: "AppendResult int32 ?new noResult (int n) = Some r0"
        and ri0: "row_inv int32 n r0" by auto
      have "update_row N (\<lambda>row. AppendResult int32 row noResult (int (length (Columns grid)) - 1))
              ?grid1 = Some (?grid1\<lparr>GridRows := (GridRows ?grid1)[N := r0]\<rparr>)"
        by (rule update_row_Some) (simp_all add: N_def cols r0)
      then show ?thesis using True ri0 by (auto simp: N_def)
    next
      case False
      with cols have "n = 0" by simp
      with False show ?thesis using row_inv_new [of int32 name target] by auto
    qed
    then obtain r0 where g2: "(if length (Columns grid) > 1
                       then update_row N
                              (\<lambda>row. AppendResult int32 row noResult (int (length (Columns grid)) - 1))
                              ?grid1
                       else Some ?grid1) = Some (grid\<lparr>GridRows := GridRows grid @ [r0]\<rparr>)"
      and ri0: "row_inv int32 n r0" by blast
    let ?grid2 = "grid\<lparr>GridRows := GridRows grid @ [r0]\<rparr>"
    from F [OF ri0] obtain r' where r': "F r0 = Some r'"
      and ri: "row_inv int32 (n + 1) r'" by blast
    let ?g = "grid\<lparr>GridRows := GridRows grid @ [r']\<rparr>"
    have "update_row N F ?grid2 = Some (?grid2\<lparr>GridRows := (GridRows ?grid2)[N := r']\<rparr>)"
      by (rule update_row_Some) (simp_all add: N_def r')
    then have upd: "update_row N F ?grid2 = Some ?g" by (simp add: N_def)
    have eq: "AppendColumn_record int32 Sprintf config build target br st
        = Some (?g, rows @ [(name, N)], filter (\<lambda>(k, p). k \<noteq> name) missing, name # found)"
      unfolding st AppendColumn_record_unfold [OF name_def F_def N_def]
      using None g2 upd by simp
    have old: "list_all (\<lambda>(k, q). row_inv int32 (if k \<in> set (name # found) then n + 1 else n)
                              ((GridRows grid @ [r']) ! q)) rows"
      unfolding list_all_iff
    proof (clarify)
      fix k q assume kq: "(k, q) \<in> set rows"
      with ptr have q: "q < N" by (rule pointer_less)
      from kq fresh have "k \<noteq> name" by force
      moreover from all kq have
        "row_inv int32 (if k \<in> set found then n + 1 else n) (GridRows grid ! q)"
        by (auto simp: list_all_iff)
      ultimately show "row_inv int32 (if k \<in> set (name # found) then n + 1 else n)
              ((GridRows grid @ [r']) ! q)"
        using q by (simp add: nth_append N_def)
    qed
    have "filter (\<lambda>(k, p). k \<notin> set (name # found)) (rows @ [(name, N)])
        = filter (\<lambda>(k, p). k \<notin> set (name # found)) rows" by simp
    with miss1 have miss2: "filter (\<lambda>(k, p). k \<noteq> name) missing
        = filter (\<lambda>(k, p). k \<notin> set (name # found)) (rows @ [(name, N)])" by simp
    have "loop_inv int32 n cs
        (?g, rows @ [(name, N)], filter (\<lambda>(k, p). k \<noteq> name) missing, name # found)"
      unfolding loop_inv_def prod.case
      using colseq cols ptr dist fresh old ri miss2 by (simp add: N_def nth_append)
    with eq show ?thesis by blast
  qed
qed

lemma fold_option_inv:
  assumes step: "\<And>x s. I s \<Longrightarrow> \<exists>s'. f x s = Some s' \<and> I s'" and "I s"
  shows "\<exists>s'. fold_option f xs s = Some s' \<and> I s'"
  using \<open>I s\<close>
proof (induction xs arbitrary: s)
  case Nil
  then show ?case by simp
next
  case (Cons x xs)
  from step [OF Cons.prems, of x] obtain s1 where "f x s = Some s1" "I s1" by blast
  with Cons.IH [of s1] show ?case by simp
qed

lemma AppendColumn_records_inv:
  assumes L: "loop_inv int32 n cs st" and bound: "int n + 1 < 2 ^ 31"
  shows "\<exists>st'. fold_option
                 (\<lambda>(target, results).
                    fold_option (AppendColumn_record int32 Sprintf config build target) results)
                 rs st = Some st' \<and> loop_inv int32 n cs st'"
proof (rule fold_option_inv [where I = "loop_inv int32 n cs", OF _ L])
  fix x :: "string \<times> 'a Row list"
    and s :: "'a Grid \<times> (string \<times> nat) list \<times> (string \<times> nat) list \<times> string list"
  assume s: "loop_inv int32 n cs s"
  obtain target results where x: "x = (target, results)" by (cases x)
  have "\<exists>s'. fold_option (AppendColumn_record int32 Sprintf config build target) results s
      = Some s' \<and> loop_inv int32 n cs s'"
    by (rule fold_option_inv [where I = "loop_inv int32 n cs", OF _ s])
       (rule AppendColumn_record_inv [OF _ bound])
  then show "\<exists>s'. (case x of (target, results) \<Rightarrow>
      fold_option (AppendColumn_record int32 Sprintf config build target) results) s = Some s' \<and>
      loop_inv int32 n cs s'"
    by (simp add: x)
qed

lemma missing_loop:
  assumes "distinct (map snd ms)"
    and "list_all (\<lambda>(k, p). p < length (GridRows g) \<and> row_inv int32 n (GridRows g ! p)) ms"
    and bound: "int n + 1 < 2 ^ 31"
  shows "\<exists>g'. fold_option (\<lambda>(name, row). update_row row (\<lambda>r. AppendResult int32 r noResult 1))
                 ms g = Some g' \<and>
              Columns g' = Columns g \<and>
              length (GridRows g') = length (GridRows g) \<and>
              (\<forall>q < length (GridRows g).
                 if q \<in> snd ` set ms then row_inv int32 (n + 1) (GridRows g' ! q)
                 else GridRows g' ! q = GridRows g ! q)"
  using assms(1,2)
proof (induction ms arbitrary: g)
  case Nil
  then show ?case by simp
next
  case (Cons a ms)
  obtain k p where a: "a = (k, p)" by (cases a)
  from Cons.prems a have p: "p < length (GridRows g)"
    and ri: "row_inv int32 n (GridRows g ! p)"
    and pn: "p \<notin> snd ` set ms" and d: "distinct (map snd ms)"
    and rest: "list_all (\<lambda>(k, p). p < length (GridRows g) \<and> row_inv int32 n (GridRows g ! p)) ms"
    by auto
  from AppendResult_row_inv [OF ri _ bound, of noResult] obtain r'
    where r': "AppendResult int32 (GridRows g ! p) noResult 1 = Some r'"
      and ri': "row_inv int32 (n + 1) r'" by auto
  let ?g1 = "g\<lparr>GridRows := (GridRows g)[p := r']\<rparr>"
  from p r' have upd: "update_row p (\<lambda>r. AppendResult int32 r noResult 1) g = Some ?g1"
    by (rule update_row_Some)
  have rest1: "list_all (\<lambda>(k, p). p < length (GridRows ?g1) \<and>
      row_inv int32 n (GridRows ?g1 ! p)) ms"
  proof -
    have "p \<noteq> q" if "(k', q) \<in> set ms" for k' q
      using that pn by force
    with rest show ?thesis by (auto simp: list_all_iff)
  qed
  from Cons.IH [OF d rest1] obtain g' where
    f: "fold_option (\<lambda>(name, row). update_row row (\<lambda>r. AppendResult int32 r noResult 1))
          ms ?g1 = Some g'"
    and c: "Columns g' = Columns ?g1"
    and l: "length (GridRows g') = length (GridRows ?g1)"
    and q: "\<forall>q < length (GridRows ?g1).
                 if q \<in> snd ` set ms then row_inv int32 (n + 1) (GridRows g' ! q)
                 else GridRows g' ! q = GridRows ?g1 ! q"
    by blast
  have "\<forall>q < length (GridRows g).
                 if q \<in> snd ` set (a # ms) then row_inv int32 (n + 1) (GridRows g' ! q)
                 else GridRows g' ! q = GridRows g ! q"
  proof (intro allI impI)
    fix q assume ql: "q < length (GridRows g)"
    then have "q < length (GridRows ?g1)" by simp
    from q [rule_format, OF this]
    have *: "if q \<in> snd ` set ms then row_inv int32 (n + 1) (GridRows g' ! q)
                 else GridRows g' ! q = GridRows ?g1 ! q" .
    show "if q \<in> snd ` set (a # ms) then row_inv int32 (n + 1) (GridRows g' ! q)
                 else GridRows g' ! q = GridRows g ! q"
    proof (cases "q = p")
      case True
      with * pn ri' p show ?thesis by (auto simp: a split: if_splits)
    next
      case False
      with * show ?thesis by (auto simp: a split: if_splits)
    qed
  qed
  with f c l upd show ?case by (simp add: a)
qed

lemma AppendColumn_inv:
  assumes G: "grid_inv int32 (grid, rows)"
    and bound: "int (length (Columns grid)) + 1 < 2 ^ 31"
  shows "\<exists>grid' rows'.
      AppendColumn float64 int32 Sprintf headers config (grid, rows) build
        = Some (grid', rows') \<and>
      grid_inv int32 (grid', rows') \<and>
      Columns grid' = Columns grid @
        [\<lparr>Build = Id build, ColStarted = float64 (Started build * 1000),
          Extra = map (header_value build) headers\<rparr>]"
proof -
  let ?n = "length (Columns grid)"
  let ?c = "\<lparr>Build = Id build, ColStarted = float64 (Started build * 1000),
          Extra = map (header_value build) headers\<rparr>"
  let ?grid1 = "grid\<lparr>Columns := Columns grid @ [?c]\<rparr>"
  from G have ptr: "map snd rows = [0..<length (GridRows grid)]"
    and dist: "distinct (map fst rows)"
    and all: "list_all (row_inv int32 ?n) (GridRows grid)"
    by (simp_all add: grid_inv_def)
  have "list_all (\<lambda>(k, p). row_inv int32 ?n (GridRows grid ! p)) rows"
    using all pointer_less [OF ptr] by (auto simp: list_all_iff)
  then have L: "loop_inv int32 ?n (Columns grid @ [?c]) (?grid1, rows, rows, [])"
    using ptr dist by (simp add: loop_inv_def case_prod_unfold)
  from AppendColumn_records_inv [OF L bound, of Sprintf config build "Rows build"]
  obtain st' where f1: "fold_option
                 (\<lambda>(target, results).
                    fold_option (AppendColumn_record int32 Sprintf config build target) results)
                 (Rows build) (?grid1, rows, rows, []) = Some st'"
    and L': "loop_inv int32 ?n (Columns grid @ [?c]) st'" by blast
  obtain grid2 rows2 missing found where st': "st' = (grid2, rows2, missing, found)"
    by (cases st') auto
  from L' have colseq: "Columns grid2 = Columns grid @ [?c]"
    and cols2: "length (Columns grid2) = ?n + 1"
    by (auto simp: loop_inv_def st')
  from L' have ptr2: "map snd rows2 = [0..<length (GridRows grid2)]"
    and dist2: "distinct (map fst rows2)"
    and miss: "missing = filter (\<lambda>(k, p). k \<notin> set found) rows2"
    and all2: "list_all (\<lambda>(k, p). row_inv int32 (if k \<in> set found then ?n + 1 else ?n)
                              (GridRows grid2 ! p)) rows2"
    by (simp_all add: loop_inv_def st')
  have dm: "distinct (map snd missing)"
    unfolding miss using pointers_distinct [OF ptr2] by (rule distinct_map_filter)
  have am: "list_all (\<lambda>(k, p). p < length (GridRows grid2) \<and>
      row_inv int32 ?n (GridRows grid2 ! p)) missing"
    unfolding miss using all2 pointer_less [OF ptr2]
    by (auto simp: list_all_iff)
  from missing_loop [OF dm am bound] obtain grid3 where
    f2: "fold_option (\<lambda>(name, row). update_row row (\<lambda>r. AppendResult int32 r noResult 1))
                 missing grid2 = Some grid3"
    and c3: "Columns grid3 = Columns grid2"
    and l3: "length (GridRows grid3) = length (GridRows grid2)"
    and q3: "\<forall>q < length (GridRows grid2).
                 if q \<in> snd ` set missing then row_inv int32 (?n + 1) (GridRows grid3 ! q)
                 else GridRows grid3 ! q = GridRows grid2 ! q"
    by blast
  have eq: "AppendColumn float64 int32 Sprintf headers config (grid, rows) build
      = Some (grid3, rows2)"
    using f1 f2 by (simp add: AppendColumn_def Let_def st')
  have "row_inv int32 (?n + 1) (GridRows grid3 ! q)" if q: "q < length (GridRows grid2)" for q
  proof -
    from q ptr2 have "q \<in> set (map snd rows2)" by simp
    then obtain k where kq: "(k, q) \<in> set rows2" by auto
    show ?thesis
    proof (cases "k \<in> set found")
      case True
      have "q \<notin> snd ` set missing"
      proof
        assume "q \<in> snd ` set missing"
        then obtain k' where "(k', q) \<in> set missing" by auto
        then have m: "(k', q) \<in> set rows2" and nf: "k' \<notin> set found" by (auto simp: miss)
        from pointer_name [OF pointers_distinct [OF ptr2] kq m] True nf show False by simp
      qed
      with q3 [rule_format, OF q] have "GridRows grid3 ! q = GridRows grid2 ! q"
        by (auto split: if_splits)
      moreover from all2 kq True have "row_inv int32 (?n + 1) (GridRows grid2 ! q)"
        by (auto simp: list_all_iff)
      ultimately show ?thesis by simp
    next
      case False
      with kq have "(k, q) \<in> set missing" by (simp add: miss)
      then have "q \<in> snd ` set missing" by force
      with q3 [rule_format, OF q] show ?thesis by (auto split: if_splits)
    qed
  qed
  then have all3: "list_all (row_inv int32 (length (Columns grid3))) (GridRows grid3)"
    using l3 c3 cols2 by (simp add: list_all_length)
  show ?thesis
    using eq all3 ptr2 dist2 l3 c3 colseq by (simp add: grid_inv_def)
qed

lemma grid_inv_empty: "grid_inv int32 (empty_Grid, [])"
  by (simp add: grid_inv_def empty_Grid_def)

lemma AppendColumns_inv:
  assumes "grid_inv int32 (grid, rows)"
    and "int (length (Columns grid)) + int (length cols) < 2 ^ 31"
  shows "\<exists>grid' rows'.
      AppendColumns float64 int32 Sprintf headers config cols (grid, rows)
        = Some (grid', rows') \<and>
      grid_inv int32 (grid', rows') \<and>
      Columns grid' = Columns grid @
        map (\<lambda>build. \<lparr>Build = Id build, ColStarted = float64 (Started build * 1000),
                       Extra = map (header_value build) headers\<rparr>) cols"
  using assms
proof (induction cols arbitrary: grid rows)
  case Nil
  then show ?case by (simp add: AppendColumns_def)
next
  case (Cons c cols)
  from Cons.prems(2) have b1: "int (length (Columns grid)) + 1 < 2 ^ 31" by simp
  from AppendColumn_inv [OF Cons.prems(1) b1, where ?float64.0 = float64 and Sprintf = Sprintf
      and headers = headers and config = config and build = c]
  obtain grid1 rows1 where
    a: "AppendColumn float64 int32 Sprintf headers config (grid, rows) c = Some (grid1, rows1)"
    and g: "grid_inv int32 (grid1, rows1)"
    and c: "Columns grid1 = Columns grid @
        [\<lparr>Build = Id c, ColStarted = float64 (Started c * 1000),
          Extra = map (header_value c) headers\<rparr>]"
    by blast
  from Cons.prems(2) c have b2: "int (length (Columns grid1)) + int (length cols) < 2 ^ 31"
    by simp
  from Cons.IH [OF g b2] obtain grid' rows' where
    "AppendColumns float64 int32 Sprintf headers config cols (grid1, rows1)
        = Some (grid', rows')"
    "grid_inv int32 (grid', rows')"
    "Columns grid' = Columns grid1 @
        map (\<lambda>build. \<lparr>Build = Id build, ColStarted = float64 (Started build * 1000),
                       Extra = map (header_value build) headers\<rparr>) cols"
    by blast
  with a c show ?case by (simp add: AppendColumns_def)
qed

text \<open>
  C1. The claim: after any sequence of columns every row has
  \<open>sum(results[1::2]) = len(columns) = len(cellIds) = len(messages) = len(icons)\<close>. A cell
  without a result appends a cell id and no message or icon: when the first build has a
  test \<open>T\<close> and the second build has not, the row \<open>T\<close> has two cells, two cell ids, one
  message and one icon.
\<close>

theorem AppendColumns_messages_counterexample:
  "AppendColumns sint Row_Result_number Sprintf_s [] default_NameConfig
     [\<lparr>Id = ''b2'', Started = 2000, Finished = 2100, Passed = True,
       Rows = [(''T'', [\<lparr>Result = Row_PASS, Metrics = [],
                          Metadata = [(''Tests name'', ''T'')], Message = ''ok'',
                          Icon = ''''\<rparr>])],
       ColMetadata = []\<rparr>,
      \<lparr>Id = ''b1'', Started = 1000, Finished = 1100, Passed = True, Rows = [],
       ColMetadata = []\<rparr>]
     (empty_Grid, [])
   = Some
      (\<lparr>Columns = [\<lparr>Build = ''b2'', ColStarted = 2000000, Extra = []\<rparr>,
                   \<lparr>Build = ''b1'', ColStarted = 1000000, Extra = []\<rparr>],
        GridRows = [\<lparr>RowName = ''T'', RowId = ''T'', Results = [1, 1, 0, 1],
                     CellIds = ['''', ''''], Messages = [''ok''], Icons = [''''],
                     RowMetrics = []\<rparr>]\<rparr>,
       [(''T'', 0)]) \<and>
   length [''ok''] \<noteq>
   length [\<lparr>Build = ''b2'', ColStarted = 2000000 :: int, Extra = []\<rparr>,
           \<lparr>Build = ''b1'', ColStarted = 1000000, Extra = []\<rparr>]"
  by (simp add: AppendColumns_def AppendColumn_def AppendColumn_record_def Let_def
      Row_Format_def default_NameConfig_def unique_name.simps empty_Grid_def
      update_row_def AppendResult_def noResult_def Row_Result_number_def)

text \<open>
  C1, amended. \<open>AppendColumn\<close> called for any sequence of fewer than \<open>2^31\<close> columns, from
  the empty grid, returns (no index is out of range), the grid has one column for each
  call, and every row has \<open>sum(results[1::2]) = len(columns) = len(cellIds)\<close> and
  \<open>len(messages) = len(icons)\<close>, which is at most \<open>len(columns)\<close>: it is the number of
  cells of the row whose result is not \<open>NO_RESULT\<close>, when no other result has the number
  of \<open>NO_RESULT\<close>.
\<close>

theorem AppendColumns_rows:
  assumes "length cols < 2 ^ 31"
  shows "\<exists>grid rows.
     AppendColumns float64 int32 Sprintf headers config cols (empty_Grid, [])
       = Some (grid, rows) \<and>
     length (Columns grid) = length cols \<and>
     list_all
       (\<lambda>r. counts_sum (Results r) = int (length (Columns grid)) \<and>
            length (CellIds r) = length (Columns grid) \<and>
            length (Messages r) = length (Icons r) \<and>
            length (Messages r) \<le> length (Columns grid) \<and>
            (distinct_NO_RESULT int32 \<longrightarrow>
               int (length (Messages r))
                 = cells (\<lambda>v. v \<noteq> int32 Row_NO_RESULT) (Results r)))
       (GridRows grid)"
proof -
  from assms have b: "int (length (Columns (empty_Grid :: 'a Grid))) + int (length cols) < 2 ^ 31"
    by (simp add: empty_Grid_def)
  from AppendColumns_inv [OF grid_inv_empty b, where ?float64.0 = float64 and Sprintf = Sprintf
      and headers = headers and config = config]
  obtain grid rows where
    a: "AppendColumns float64 int32 Sprintf headers config cols (empty_Grid, [])
        = Some (grid, rows)"
    and g: "grid_inv int32 (grid, rows)"
    and c: "Columns grid = Columns (empty_Grid :: 'a Grid) @
        map (\<lambda>build. \<lparr>Build = Id build, ColStarted = float64 (Started build * 1000),
                       Extra = map (header_value build) headers\<rparr>) cols"
    by blast
  from c have l: "length (Columns grid) = length cols" by (simp add: empty_Grid_def)
  from g have "list_all (row_inv int32 (length (Columns grid))) (GridRows grid)"
    by (simp add: grid_inv_def)
  then have "list_all
       (\<lambda>r. counts_sum (Results r) = int (length (Columns grid)) \<and>
            length (CellIds r) = length (Columns grid) \<and>
            length (Messages r) = length (Icons r) \<and>
            length (Messages r) \<le> length (Columns grid) \<and>
            (distinct_NO_RESULT int32 \<longrightarrow>
               int (length (Messages r))
                 = cells (\<lambda>v. v \<noteq> int32 Row_NO_RESULT) (Results r)))
       (GridRows grid)"
    by (rule list.pred_mono_strong) (auto simp: row_inv_def)
  with a l show ?thesis by blast
qed

lemma distinct_NO_RESULT_number: "distinct_NO_RESULT Row_Result_number"
  by (auto simp: distinct_NO_RESULT_def Row_Result_number_def split: Row_Result.splits)

theorem AppendColumns_rows_witness:
  "\<exists>grid rows.
     AppendColumns sint Row_Result_number Sprintf_s [''Commit''] default_NameConfig
       [\<lparr>Id = ''b2'', Started = 2000, Finished = 2100, Passed = True,
         Rows = [(''Overall'', [\<lparr>Result = Row_PASS, Metrics = [(''seconds-elapsed'', 100)],
                            Metadata = [(''Tests name'', ''Overall'')], Message = '''',
                            Icon = ''''\<rparr>]),
                 (''T'', [\<lparr>Result = Row_PASS, Metrics = [],
                            Metadata = [(''Tests name'', ''T'')], Message = ''ok'',
                            Icon = ''''\<rparr>])],
         ColMetadata = []\<rparr>,
        \<lparr>Id = ''b1'', Started = 1000, Finished = 1100, Passed = True,
         Rows = [(''Overall'', [\<lparr>Result = Row_PASS, Metrics = [(''seconds-elapsed'', 100)],
                            Metadata = [(''Tests name'', ''Overall'')], Message = '''',
                            Icon = ''''\<rparr>])],
         ColMetadata = []\<rparr>]
       (empty_Grid, []) = Some (grid, rows) \<and>
     length (Columns grid) = 2 \<and>
     list_all
       (\<lambda>r. counts_sum (Results r) = 2 \<and> length (CellIds r) = 2 \<and>
            length (Messages r) = length (Icons r) \<and>
            int (length (Messages r)) = cells (\<lambda>v. v \<noteq> 0) (Results r))
       (GridRows grid)"
proof -
  let ?cols = "[\<lparr>Id = ''b2'', Started = 2000, Finished = 2100, Passed = True,
         Rows = [(''Overall'', [\<lparr>Result = Row_PASS, Metrics = [(''seconds-elapsed'', 100::int)],
                            Metadata = [(''Tests name'', ''Overall'')], Message = '''',
                            Icon = ''''\<rparr>]),
                 (''T'', [\<lparr>Result = Row_PASS, Metrics = [],
                            Metadata = [(''Tests name'', ''T'')], Message = ''ok'',
                            Icon = ''''\<rparr>])],
         ColMetadata = []\<rparr>,
        \<lparr>Id = ''b1'', Started = 1000, Finished = 1100, Passed = True,
         Rows = [(''Overall'', [\<lparr>Result = Row_PASS, Metrics = [(''seconds-elapsed'', 100)],
                            Metadata = [(''Tests name'', ''Overall'')], Message = '''',
                            Icon = ''''\<rparr>])],
         ColMetadata = []\<rparr>]"
  have len: "length ?cols < 2 ^ 31" by simp
  from AppendColumns_rows [OF len, where ?float64.0 = sint and ?int32.0 = Row_Result_number
      and Sprintf = Sprintf_s and headers = "[''Commit'']" and config = default_NameConfig]
  obtain grid rows where
    a: "AppendColumns sint Row_Result_number Sprintf_s [''Commit''] default_NameConfig ?cols
          (empty_Grid, []) = Some (grid, rows)"
    and l: "length (Columns grid) = length ?cols"
    and r: "list_all
       (\<lambda>r. counts_sum (Results r) = int (length (Columns grid)) \<and>
            length (CellIds r) = length (Columns grid) \<and>
            length (Messages r) = length (Icons r) \<and>
            length (Messages r) \<le> length (Columns grid) \<and>
            (distinct_NO_RESULT Row_Result_number \<longrightarrow>
               int (length (Messages r))
                 = cells (\<lambda>v. v \<noteq> Row_Result_number Row_NO_RESULT) (Results r)))
       (GridRows grid)"
    by blast
  from l have l2: "length (Columns grid) = 2" by simp
  from r have "list_all
       (\<lambda>r. counts_sum (Results r) = 2 \<and> length (CellIds r) = 2 \<and>
            length (Messages r) = length (Icons r) \<and>
            int (length (Messages r)) = cells (\<lambda>v. v \<noteq> 0) (Results r))
       (GridRows grid)"
    by (rule list.pred_mono_strong)
       (use distinct_NO_RESULT_number in \<open>simp add: l2 Row_Result_number_def\<close>)
  with a l2 show ?thesis by blast
qed

subsection \<open>The columns of the grid\<close>

lemma columns_fed_Nil: "columns_fed stop [] = []"
  by (simp add: columns_fed_def)

lemma columns_fed_None: "columns_fed stop (None # cols) = columns_fed stop cols"
  by (simp add: columns_fed_def)

lemma columns_fed_Some:
  "columns_fed stop (Some c # cols) =
     (if Started c <s stop then [c] else c # columns_fed stop cols)"
  by (simp add: columns_fed_def Let_def)

lemma length_columns_fed: "length (columns_fed stop cols) \<le> length cols"
proof (induction cols)
  case Nil
  show ?case by (simp add: columns_fed_Nil)
next
  case (Cons c cols)
  then show ?case by (cases c) (simp_all add: columns_fed_None columns_fed_Some)
qed

lemma AppendColumns_Cons:
  "AppendColumns float64 int32 Sprintf h nc (c # cs) st =
     (case AppendColumn float64 int32 Sprintf h nc st c of
        None \<Rightarrow> None
      | Some st1 \<Rightarrow> AppendColumns float64 int32 Sprintf h nc cs st1)"
  by (simp add: AppendColumns_def cong: option.case_cong)

lemma AppendColumns_Nil: "AppendColumns float64 int32 Sprintf h nc [] st = Some st"
  by (simp add: AppendColumns_def)

lemma ReadBuilds_append_fed:
  assumes "\<forall>i. \<not> cancelled i"
  shows "ReadBuilds_append float64 int32 Sprintf h nc cancelled stop i cols st =
     map_option Inr (AppendColumns float64 int32 Sprintf h nc (columns_fed stop cols) st)"
proof (induction cols arbitrary: i st)
  case Nil
  show ?case by (simp add: columns_fed_Nil AppendColumns_Nil)
next
  case (Cons c cols)
  show ?case
  proof (cases c)
    case None
    with Cons assms show ?thesis by (simp add: columns_fed_None)
  next
    case (Some col)
    with Cons assms show ?thesis
      by (simp add: columns_fed_Some AppendColumns_Cons AppendColumns_Nil split: option.splits)
  qed
qed

lemma ReadBuilds_append_Columns:
  assumes nc: "\<forall>i. \<not> cancelled i" and len: "length cols < 2 ^ 31"
  shows "\<exists>grid rows.
     ReadBuilds_append float64 int32 Sprintf h nc cancelled stop 0 cols (empty_Grid, [])
       = Some (Inr (grid, rows)) \<and>
     map Build (Columns grid) = map Id (columns_fed stop cols)"
proof -
  from len length_columns_fed [of stop cols]
  have b: "int (length (Columns (empty_Grid :: 'a Grid))) + int (length (columns_fed stop cols))
      < 2 ^ 31"
    by (simp add: empty_Grid_def)
  from AppendColumns_inv [OF grid_inv_empty b, where ?float64.0 = float64 and Sprintf = Sprintf
      and headers = h and config = nc and ?int32.0 = int32]
  obtain grid rows where
    a: "AppendColumns float64 int32 Sprintf h nc (columns_fed stop cols) (empty_Grid, [])
        = Some (grid, rows)"
    and c: "Columns grid = Columns (empty_Grid :: 'a Grid) @
        map (\<lambda>build. \<lparr>Build = Id build, ColStarted = float64 (Started build * 1000),
                       Extra = map (header_value build) h\<rparr>) (columns_fed stop cols)"
    by blast
  from c have "map Build (Columns grid) = map Id (columns_fed stop cols)"
    by (simp add: empty_Grid_def comp_def)
  with a show ?thesis
    by (simp add: ReadBuilds_append_fed [OF nc])
qed

lemma sint_stop_Unix:
  assumes "0 \<le> now" "now < 2 ^ 63" "0 \<le> secs" "secs \<le> 2 ^ 32" "secs \<noteq> 0"
  shows "sint (stop_Unix now (secs * 1000000000)) = now div 1000000000 - secs"
proof -
  have "(now - secs * 1000000000) div 1000000000 = now div 1000000000 - secs"
    by simp
  moreover have "- (2 ^ 63) \<le> now div 1000000000 - secs"
    using assms by (simp add: pos_imp_zdiv_nonneg_iff)
  moreover have "now div 1000000000 - secs < 2 ^ 63"
  proof -
    have "now div 1000000000 \<le> now" using assms(1) by linarith
    with assms show ?thesis by simp
  qed
  ultimately have "sint (word_of_int ((now - secs * 1000000000) div 1000000000) :: 64 word)
      = now div 1000000000 - secs"
    by (simp only: sint_sbintrunc') (simp add: signed_take_bit_int_eq_self)
  with assms(5) show ?thesis by (simp add: stop_Unix_def)
qed

text \<open>
  C3. The claim: the loop appends the columns of the slots that are not empty, in slot
  order, up to and including the first that started before \<open>now - window\<close>; and for builds
  whose start times step down one hour each and a window of 3 hours the grid has exactly
  4 columns. The number of columns depends on the start of the newest build: when it
  started in the second of \<open>now\<close>, the fourth build started exactly at \<open>now - window\<close>, which
  is not before it, and the fifth build is the first before the window: the grid has 5
  columns.
\<close>

theorem ReadBuilds_hourly_counterexample:
  "\<exists>grid rows.
     ReadBuilds_append sint Row_Result_number Sprintf_s [] default_NameConfig (\<lambda>i. False)
       (stop_Unix (1000000 * 1000000000) (3 * 3600 * 1000000000)) 0
       [Some (example_build ''b10'' 1000000), Some (example_build ''b9'' 996400),
        Some (example_build ''b8'' 992800), Some (example_build ''b7'' 989200),
        Some (example_build ''b6'' 985600), Some (example_build ''b5'' 982000),
        Some (example_build ''b4'' 978400), Some (example_build ''b3'' 974800),
        Some (example_build ''b2'' 971200), Some (example_build ''b1'' 967600)]
       (empty_Grid, [])
     = Some (Inr (grid, rows)) \<and>
     map Build (Columns grid) = [''b10'', ''b9'', ''b8'', ''b7'', ''b6'']"
proof -
  let ?cols = "[Some (example_build ''b10'' 1000000), Some (example_build ''b9'' 996400),
        Some (example_build ''b8'' 992800), Some (example_build ''b7'' 989200),
        Some (example_build ''b6'' 985600), Some (example_build ''b5'' 982000),
        Some (example_build ''b4'' 978400), Some (example_build ''b3'' 974800),
        Some (example_build ''b2'' 971200), Some (example_build ''b1'' 967600)]"
  let ?stop = "stop_Unix (1000000 * 1000000000) (3 * 3600 * 1000000000)"
  have stop: "?stop = 989200"
    by (simp add: stop_Unix_def)
  have fed: "map Id (columns_fed ?stop ?cols) = [''b10'', ''b9'', ''b8'', ''b7'', ''b6'']"
    unfolding stop
    by (simp add: columns_fed_Some example_build_def word_sless_alt)
  have "\<forall>i. \<not> (\<lambda>i. False) i" by simp
  from ReadBuilds_append_Columns [OF this, of ?cols sint Row_Result_number Sprintf_s "[]"
      default_NameConfig ?stop]
  show ?thesis unfolding fed by simp
qed

text \<open>
  C3, amended. When the context is not cancelled, the loop returns a grid whose columns are
  the columns of the slots that are not empty, in slot order, up to and including the
  first that started before \<open>stop\<close> (\<open>now - window\<close> in seconds). When the four newest
  slots hold builds whose start times step down one hour each, the newest of them
  started less than one hour and at least one second before \<open>now\<close>, and the window is 3
  hours, the grid has exactly the columns of these 4 builds, whatever the later slots
  hold.
\<close>

theorem ReadBuilds_append_window:
  assumes nc: "\<forall>i. \<not> cancelled i" and len: "length cols < 2 ^ 31"
  shows "\<exists>grid rows.
     ReadBuilds_append float64 int32 Sprintf h nc cancelled stop 0 cols (empty_Grid, [])
       = Some (Inr (grid, rows)) \<and>
     map Build (Columns grid) = map Id (columns_fed stop cols) \<and>
     (\<forall>b10 b9 b8 b7 later now.
        cols = Some b10 # Some b9 # Some b8 # Some b7 # later \<and>
        stop = stop_Unix now (3 * 3600 * 1000000000) \<and>
        0 \<le> now \<and> now < 2 ^ 63 \<and>
        sint (Started b9) = sint (Started b10) - 3600 \<and>
        sint (Started b8) = sint (Started b10) - 2 * 3600 \<and>
        sint (Started b7) = sint (Started b10) - 3 * 3600 \<and>
        now div 1000000000 - 3600 \<le> sint (Started b10) \<and>
        sint (Started b10) < now div 1000000000 \<longrightarrow>
        map Build (Columns grid) = [Id b10, Id b9, Id b8, Id b7])"
proof -
  from ReadBuilds_append_Columns [OF nc len, of float64 int32 Sprintf h nc stop]
  obtain grid rows where
    a: "ReadBuilds_append float64 int32 Sprintf h nc cancelled stop 0 cols (empty_Grid, [])
       = Some (Inr (grid, rows))"
    and c: "map Build (Columns grid) = map Id (columns_fed stop cols)"
    by blast
  have "map Build (Columns grid) = [Id b10, Id b9, Id b8, Id b7]"
    if cols: "cols = Some b10 # Some b9 # Some b8 # Some b7 # later"
      and stop: "stop = stop_Unix now (3 * 3600 * 1000000000)"
      and now: "0 \<le> now" "now < 2 ^ 63"
      and s9: "sint (Started b9) = sint (Started b10) - 3600"
      and s8: "sint (Started b8) = sint (Started b10) - 2 * 3600"
      and s7: "sint (Started b7) = sint (Started b10) - 3 * 3600"
      and lo: "now div 1000000000 - 3600 \<le> sint (Started b10)"
      and hi: "sint (Started b10) < now div 1000000000"
    for b10 b9 b8 b7 later now
  proof -
    have "sint (stop_Unix now ((3 * 3600) * 1000000000)) = now div 1000000000 - 3 * 3600"
      by (rule sint_stop_Unix) (use now in simp_all)
    then have st: "sint stop = now div 1000000000 - 10800"
      by (simp add: stop)
    have "columns_fed stop cols = [b10, b9, b8, b7]"
      unfolding cols using st s9 s8 s7 lo hi
      by (simp add: columns_fed_Some word_sless_alt)
    with c show ?thesis by simp
  qed
  with a c show ?thesis by blast
qed

theorem ReadBuilds_append_window_witness:
  "\<exists>grid rows.
     ReadBuilds_append sint Row_Result_number Sprintf_s [] default_NameConfig (\<lambda>i. False)
       (stop_Unix (1000000 * 1000000000) (3 * 3600 * 1000000000)) 0
       [Some (example_build ''b10'' 999400), Some (example_build ''b9'' 995800),
        Some (example_build ''b8'' 992200), Some (example_build ''b7'' 988600),
        Some (example_build ''b6'' 985000), None,
        Some (example_build ''b4'' 977800)]
       (empty_Grid, [])
     = Some (Inr (grid, rows)) \<and>
     map Build (Columns grid) = [''b10'', ''b9'', ''b8'', ''b7'']"
proof -
  let ?later = "[Some (example_build ''b6'' 985000), None,
        Some (example_build ''b4'' 977800)]"
  let ?cols = "Some (example_build ''b10'' 999400) # Some (example_build ''b9'' 995800) #
        Some (example_build ''b8'' 992200) # Some (example_build ''b7'' 988600) # ?later"
  let ?stop = "stop_Unix (1000000 * 1000000000) (3 * 3600 * 1000000000)"
  have nc: "\<forall>i. \<not> (\<lambda>i. False) i" by simp
  have len: "length ?cols < 2 ^ 31" by simp
  from ReadBuilds_append_window [OF nc len, of sint Row_Result_number Sprintf_s "[]"
      default_NameConfig ?stop]
  obtain grid rows where
    a: "ReadBuilds_append sint Row_Result_number Sprintf_s [] default_NameConfig (\<lambda>i. False)
       ?stop 0 ?cols (empty_Grid, []) = Some (Inr (grid, rows))"
    and w: "\<forall>b10 b9 b8 b7 later now.
        ?cols = Some b10 # Some b9 # Some b8 # Some b7 # later \<and>
        ?stop = stop_Unix now (3 * 3600 * 1000000000) \<and>
        0 \<le> now \<and> now < 2 ^ 63 \<and>
        sint (Started b9) = sint (Started b10) - 3600 \<and>
        sint (Started b8) = sint (Started b10) - 2 * 3600 \<and>
        sint (Started b7) = sint (Started b10) - 3 * 3600 \<and>
        now div 1000000000 - 3600 \<le> sint (Started b10) \<and>
        sint (Started b10) < now div 1000000000 \<longrightarrow>
        map Build (Columns grid) = [Id b10, Id b9, Id b8, Id b7]"
    by blast
  from w [rule_format, of "example_build ''b10'' 999400" "example_build ''b9'' 995800"
      "example_build ''b8'' 992200" "example_build ''b7'' 988600" ?later
      "1000000 * 1000000000"]
  have "map Build (Columns grid) = [''b10'', ''b9'', ''b8'', ''b7'']"
    by (simp add: example_build_def)
  with a show ?thesis by simp
qed

subsection \<open>Paths of the object store\<close>

lemma unreserved_not_delim:
  "unreserved c \<Longrightarrow>
     c \<noteq> CHR ''/'' \<and> c \<noteq> CHR '':'' \<and> c \<noteq> CHR ''?'' \<and> c \<noteq> CHR ''#'' \<and> c \<noteq> CHR ''@''"
  by (auto simp: unreserved_def is_letter_def is_digit_def)

lemma unreserved_plain: "unreserved c \<Longrightarrow> plain_char c"
  by (simp add: plain_char_def)

lemma getscheme_gs: "getscheme (''gs:'' @ rest) = Some (''gs'', rest)"
  by (simp add: getscheme_def is_letter_def is_digit_def)

lemma url_split_absent: "c \<notin> set s \<Longrightarrow> url_split s c cutc = (s, '''')"
  by (simp add: url_split_def)

lemma url_split_authority:
  assumes "CHR ''/'' \<notin> set b" and "p = [] \<or> take 1 p = ''/''"
  shows "url_split (b @ p) CHR ''/'' False = (b, p)"
proof (cases p)
  case Nil
  with assms show ?thesis by (simp add: url_split_def)
next
  case (Cons c cs)
  with assms have c: "c = CHR ''/''" by simp
  with Cons assms(1) show ?thesis
    by (simp add: url_split_def takeWhile_append dropWhile_append
        takeWhile_eq_all_conv [THEN iffD2] dropWhile_eq_Nil_conv [THEN iffD2])
qed

lemma canonical_facts:
  assumes "canonical_gs b p"
  shows "b \<noteq> []" "p = [] \<or> take 1 p = ''/''"
    "\<And>c. c \<in> set ''/:?#@'' \<Longrightarrow> c \<notin> set b"
    "CHR ''?'' \<notin> set p" "CHR ''#'' \<notin> set p"
    "list_all plain_char (b @ p)"
proof -
  from assms show "b \<noteq> []" "p = [] \<or> take 1 p = ''/''"
    by (simp_all add: canonical_gs_def)
  from assms have ub: "\<And>c. c \<in> set b \<Longrightarrow> unreserved c"
    and up: "\<And>c. c \<in> set p \<Longrightarrow> unreserved c \<or> c \<in> set ''/:@+''"
    by (auto simp: canonical_gs_def list_all_iff)
  show "c \<notin> set b" if "c \<in> set ''/:?#@''" for c
    using that ub [of c] unreserved_not_delim [of c] by auto
  show "CHR ''?'' \<notin> set p" using up [of "CHR ''?''"] unreserved_not_delim [of "CHR ''?''"] by auto
  show "CHR ''#'' \<notin> set p" using up [of "CHR ''#''"] unreserved_not_delim [of "CHR ''#''"] by auto
  show "list_all plain_char (b @ p)"
    using ub up by (auto simp: list_all_iff plain_char_def)
qed

lemma canonical_Parse:
  assumes "canonical_gs b p"
  shows "url_Parse (''gs://'' @ b @ p) =
     Some (Inr (zero_URL\<lparr>Scheme := ''gs'', Host := b, Path := p\<rparr>))"
proof -
  note f = canonical_facts [OF assms]
  let ?v = "''gs://'' @ b @ p"
  have plain: "list_all plain_char ?v"
    using f(6) by (simp add: plain_char_def unreserved_def is_letter_def)
  have nohash: "CHR ''#'' \<notin> set ?v" using f(3) [of "CHR ''#''"] f(5) by simp
  have noq: "CHR ''?'' \<notin> set (''//'' @ b @ p)" using f(3) [of "CHR ''?''"] f(4) by simp
  have sch: "getscheme ?v = Some (''gs'', ''//'' @ b @ p)"
    using getscheme_gs [of "''//'' @ b @ p"] by simp
  have cnt: "count_list (''//'' @ b @ p) CHR ''?'' \<noteq> 1"
  proof -
    from noq have "count_list (''//'' @ b @ p) CHR ''?'' = 0"
      by (rule count_list_0_iff [THEN iffD2])
    then show ?thesis by linarith
  qed
  have auth: "url_split (b @ p) CHR ''/'' False = (b, p)"
    using f(3) [of "CHR ''/''"] f(2) by (intro url_split_authority) simp_all
  have noat: "CHR ''@'' \<notin> set b" using f(3) [of "CHR ''@''"] by simp
  have "url_parse ?v = Inr (zero_URL\<lparr>Scheme := ''gs'', Host := b, Path := p\<rparr>)"
    unfolding url_parse_def sch
    using cnt auth noat url_split_absent [OF noq]
    by (simp add: Let_def ToLower_char_def parseAuthority_def zero_URL_def)
  then show ?thesis
    unfolding url_Parse_def using plain url_split_absent [OF nohash] by simp
qed

lemma canonical_Set:
  assumes "canonical_gs b p"
  shows "gcsPath_Set (''gs://'' @ b @ p) =
     Some (Inr \<lparr>url = zero_URL\<lparr>Scheme := ''gs'', Host := b, Path := p\<rparr>\<rparr>)"
  unfolding gcsPath_Set_def canonical_Parse [OF assms]
  using canonical_facts(3) [OF assms, of "CHR '':''"] by (simp add: zero_URL_def)

lemma canonical_String:
  assumes "canonical_gs b p"
  shows "URL_String (zero_URL\<lparr>Scheme := ''gs'', Host := b, Path := p\<rparr>) = Some (''gs://'' @ b @ p)"
proof -
  from assms have "list_all (\<lambda>c. unreserved c \<or> c \<in> set '':+'') b"
    by (auto simp: canonical_gs_def list_all_iff)
  moreover from assms have "list_all (\<lambda>c. unreserved c \<or> c \<in> set ''/:@+'') p"
    by (simp add: canonical_gs_def)
  ultimately show ?thesis
    using canonical_facts(1,2) [OF assms]
    by (auto simp: URL_String_def zero_URL_def Let_def)
qed

text \<open>
  C6. The claim: for every \<open>v\<close> that \<open>Set\<close> accepts, \<open>String()\<close> returns \<open>v\<close>. \<open>url.Parse\<close>
  turns the scheme into lower case, and \<open>Set\<close> compares the result with \<open>gs\<close>: it accepts
  \<open>GS://bucket/obj\<close>, and \<open>String()\<close> then returns \<open>gs://bucket/obj\<close>.
\<close>

theorem gcsPath_round_trip_counterexample:
  "gcsPath_Set ''GS://bucket/obj'' =
     Some (Inr \<lparr>url = zero_URL\<lparr>Scheme := ''gs'', Host := ''bucket'', Path := ''/obj''\<rparr>\<rparr>) \<and>
   gcsPath_String \<lparr>url = zero_URL\<lparr>Scheme := ''gs'', Host := ''bucket'', Path := ''/obj''\<rparr>\<rparr>
     = Some ''gs://bucket/obj'' \<and>
   ''gs://bucket/obj'' \<noteq> ''GS://bucket/obj''"
  by (simp add: gcsPath_Set_def url_Parse_def url_parse_def getscheme_def url_split_def
      parseAuthority_def plain_char_def unreserved_def is_letter_def is_digit_def
      ToLower_char_def zero_URL_def gcsPath_String_def URL_String_def Let_def)

text \<open>
  C6, amended. For every \<open>v\<close> of the form \<open>gs://bucket/path\<close> (the scheme \<open>gs\<close> in lower
  case, a bucket of letters, digits and \<open>- _ . ~\<close> that is not empty, and a path that is
  empty or starts with \<open>/\<close>, of these bytes and \<open>/ : @ +\<close>), \<open>Set\<close> accepts \<open>v\<close> and
  \<open>String()\<close> then returns exactly \<open>v\<close>; \<open>bucket()\<close> is the bucket and \<open>object()\<close> the path
  without its first \<open>/\<close>.
\<close>

theorem gcsPath_round_trip:
  assumes "canonical_gs b p"
  shows "\<exists>g. gcsPath_Set (''gs://'' @ b @ p) = Some (Inr g) \<and>
     gcsPath_String g = Some (''gs://'' @ b @ p) \<and>
     gcsPath_bucket g = b \<and> gcsPath_object g = drop 1 p"
  using canonical_Set [OF assms] canonical_String [OF assms]
  by (simp add: gcsPath_String_def gcsPath_bucket_def gcsPath_object_def zero_URL_def)

theorem gcsPath_round_trip_witness:
  "\<exists>g. gcsPath_Set ''gs://k8s-testgrid/config/path.pb'' = Some (Inr g) \<and>
     gcsPath_String g = Some ''gs://k8s-testgrid/config/path.pb'' \<and>
     gcsPath_bucket g = ''k8s-testgrid'' \<and> gcsPath_object g = ''config/path.pb''"
proof -
  have "canonical_gs ''k8s-testgrid'' ''/config/path.pb''"
    by (simp add: canonical_gs_def unreserved_def is_letter_def is_digit_def)
  from gcsPath_round_trip [OF this] show ?thesis by simp
qed

text \<open>
  C7. The claim: \<open>Set\<close> returns an error exactly when \<open>v\<close> is not a \<open>gs://bucket/object\<close>
  URL with a bucket that is not empty. \<open>Set\<close> has no check of the bucket: it accepts
  \<open>gs:///obj\<close>, whose bucket is empty, and \<open>gs:\<close>, which has no bucket and no object.
\<close>

theorem gcsPath_Set_empty_bucket_counterexample:
  "gcsPath_Set ''gs:///obj'' =
     Some (Inr \<lparr>url = zero_URL\<lparr>Scheme := ''gs'', Path := ''/obj''\<rparr>\<rparr>) \<and>
   gcsPath_bucket \<lparr>url = zero_URL\<lparr>Scheme := ''gs'', Path := ''/obj''\<rparr>\<rparr> = '''' \<and>
   gcsPath_Set ''gs:'' = Some (Inr \<lparr>url = zero_URL\<lparr>Scheme := ''gs''\<rparr>\<rparr>)"
  by (simp add: gcsPath_Set_def url_Parse_def url_parse_def getscheme_def url_split_def
      parseAuthority_def plain_char_def unreserved_def is_letter_def is_digit_def
      ToLower_char_def zero_URL_def gcsPath_bucket_def Let_def)

text \<open>
  C7, amended. \<open>Set\<close> returns an error exactly when \<open>url.Parse\<close> fails or the parsed URL
  has a scheme other than \<open>gs\<close>, a host with a colon, or an opaque part, a user, a query
  or a fragment that is not empty; whether the bucket is empty is not checked. It accepts
  every \<open>gs://bucket/path\<close> with a bucket that is not empty, the path empty or not.
\<close>

theorem gcsPath_Set_errors:
  "(\<forall>err. url_Parse v = Some (Inl err) \<longrightarrow> gcsPath_Set v = Some (Inl (InvalidURL err))) \<and>
   (\<forall>u. url_Parse v = Some (Inr u) \<longrightarrow>
      ((\<exists>e. gcsPath_Set v = Some (Inl e)) \<longleftrightarrow>
         Scheme u \<noteq> ''gs'' \<or> CHR '':'' \<in> set (Host u) \<or> Opaque u \<noteq> '''' \<or>
         User u \<noteq> None \<or> RawQuery u \<noteq> '''' \<or> Fragment u \<noteq> '''') \<and>
      ((gcsPath_Set v = Some (Inr \<lparr>url = u\<rparr>)) \<longleftrightarrow>
         Scheme u = ''gs'' \<and> CHR '':'' \<notin> set (Host u) \<and> Opaque u = '''' \<and>
         User u = None \<and> RawQuery u = '''' \<and> Fragment u = '''')) \<and>
   (canonical_gs b p \<longrightarrow>
      (\<exists>g. gcsPath_Set (''gs://'' @ b @ p) = Some (Inr g) \<and>
           gcsPath_bucket g = b \<and> gcsPath_object g = drop 1 p))"
proof (intro conjI allI impI)
  fix err assume "url_Parse v = Some (Inl err)"
  then show "gcsPath_Set v = Some (Inl (InvalidURL err))"
    by (simp add: gcsPath_Set_def)
next
  fix u assume u: "url_Parse v = Some (Inr u)"
  show "(\<exists>e. gcsPath_Set v = Some (Inl e)) \<longleftrightarrow>
         Scheme u \<noteq> ''gs'' \<or> CHR '':'' \<in> set (Host u) \<or> Opaque u \<noteq> '''' \<or>
         User u \<noteq> None \<or> RawQuery u \<noteq> '''' \<or> Fragment u \<noteq> ''''"
    unfolding gcsPath_Set_def u by auto
  show "(gcsPath_Set v = Some (Inr \<lparr>url = u\<rparr>)) \<longleftrightarrow>
         Scheme u = ''gs'' \<and> CHR '':'' \<notin> set (Host u) \<and> Opaque u = '''' \<and>
         User u = None \<and> RawQuery u = '''' \<and> Fragment u = ''''"
    unfolding gcsPath_Set_def u by auto
next
  assume "canonical_gs b p"
  from canonical_Set [OF this]
  show "\<exists>g. gcsPath_Set (''gs://'' @ b @ p) = Some (Inr g) \<and>
           gcsPath_bucket g = b \<and> gcsPath_object g = drop 1 p"
    by (simp add: gcsPath_bucket_def gcsPath_object_def zero_URL_def)
qed

theorem gcsPath_Set_errors_witness:
  "url_Parse ''://b/o'' = Some (Inl ''missing protocol scheme'') \<and>
   gcsPath_Set ''://b/o'' = Some (Inl (InvalidURL ''missing protocol scheme'')) \<and>
   url_Parse ''gs://b/o?x'' =
     Some (Inr (zero_URL\<lparr>Scheme := ''gs'', Host := ''b'', Path := ''/o'', RawQuery := ''x''\<rparr>)) \<and>
   (\<exists>e. gcsPath_Set ''gs://b/o?x'' = Some (Inl e)) \<and>
   url_Parse ''gs:///obj'' = Some (Inr (zero_URL\<lparr>Scheme := ''gs'', Path := ''/obj''\<rparr>)) \<and>
   gcsPath_Set ''gs:///obj'' = Some (Inr \<lparr>url = zero_URL\<lparr>Scheme := ''gs'', Path := ''/obj''\<rparr>\<rparr>) \<and>
   canonical_gs ''bucket'' ''/obj'' \<and>
   (\<exists>g. gcsPath_Set ''gs://bucket/obj'' = Some (Inr g) \<and>
        gcsPath_bucket g = ''bucket'' \<and> gcsPath_object g = ''obj'')"
proof -
  note defs = url_Parse_def url_parse_def getscheme_def url_split_def
      parseAuthority_def plain_char_def unreserved_def is_letter_def is_digit_def
      ToLower_char_def zero_URL_def Let_def
  have p1: "url_Parse ''://b/o'' = Some (Inl ''missing protocol scheme'')"
    by (simp add: defs)
  have p2: "url_Parse ''gs://b/o?x'' =
     Some (Inr (zero_URL\<lparr>Scheme := ''gs'', Host := ''b'', Path := ''/o'', RawQuery := ''x''\<rparr>))"
    by (simp add: defs)
  have p3: "url_Parse ''gs:///obj'' = Some (Inr (zero_URL\<lparr>Scheme := ''gs'', Path := ''/obj''\<rparr>))"
    by (simp add: defs)
  have c: "canonical_gs ''bucket'' ''/obj''"
    by (simp add: canonical_gs_def unreserved_def is_letter_def is_digit_def)
  from gcsPath_Set_errors [of "''://b/o''" "''bucket''" "''/obj''"] p1 c
  have r1: "gcsPath_Set ''://b/o'' = Some (Inl (InvalidURL ''missing protocol scheme''))"
    and r4: "\<exists>g. gcsPath_Set ''gs://bucket/obj'' = Some (Inr g) \<and>
        gcsPath_bucket g = ''bucket'' \<and> gcsPath_object g = ''obj''"
    by simp_all
  from gcsPath_Set_errors [of "''gs://b/o?x''" "''bucket''" "''/obj''"] p2
  have r2: "\<exists>e. gcsPath_Set ''gs://b/o?x'' = Some (Inl e)"
    by (simp add: zero_URL_def)
  from gcsPath_Set_errors [of "''gs:///obj''" "''bucket''" "''/obj''"] p3
  have r3: "gcsPath_Set ''gs:///obj'' = Some (Inr \<lparr>url = zero_URL\<lparr>Scheme := ''gs'', Path := ''/obj''\<rparr>\<rparr>)"
    by (simp add: zero_URL_def)
  from p1 p2 p3 c r1 r2 r3 r4 show ?thesis by blast
qed

end
